theory Spec2Isabelle
  imports Main
begin

section \<open>Strings as Python and \<open>posixpath\<close> handle them\<close>

text \<open>
  \<open>str.rfind(sep)\<close>: the highest index at which \<open>sep\<close> occurs, or \<open>-1\<close>.
  The scan keeps the current index and the best index seen so far.
\<close>

primrec rfind_aux :: "char \<Rightarrow> string \<Rightarrow> int \<Rightarrow> int \<Rightarrow> int" where
  "rfind_aux c [] i best = best"
| "rfind_aux c (x # xs) i best = rfind_aux c xs (i + 1) (if x = c then i else best)"

definition rfind :: "char \<Rightarrow> string \<Rightarrow> int" where
  "rfind c p = rfind_aux c p 0 (- 1)"

text \<open>
  \<open>os.path.basename\<close> on a POSIX host:
  \<^verbatim>\<open>i = p.rfind('/') + 1; return p[i:]\<close>
\<close>

definition basename :: "string \<Rightarrow> string" where
  "basename p = (let i = rfind (CHR ''/'') p + 1 in drop (nat i) p)"

text \<open>
  \<open>os.path.join(a, b)\<close> on a POSIX host, for one component \<open>b\<close>.
\<close>

definition path_join :: "string \<Rightarrow> string \<Rightarrow> string" where
  "path_join a b =
     (if b \<noteq> [] \<and> hd b = CHR ''/'' then b
      else if a = [] \<or> last a = CHR ''/'' then a @ b
      else a @ ''/'' @ b)"

text \<open>\<open>sub in s\<close> for strings: \<open>sub\<close> occurs in \<open>s\<close> as a contiguous block.\<close>

fun startswith :: "string \<Rightarrow> string \<Rightarrow> bool" where
  "startswith s [] = True"
| "startswith [] (c # cs) = False"
| "startswith (x # xs) (c # cs) = (x = c \<and> startswith xs cs)"

fun str_in :: "string \<Rightarrow> string \<Rightarrow> bool" where
  "str_in sub [] = (sub = [])"
| "str_in sub (x # xs) = (startswith (x # xs) sub \<or> str_in sub xs)"

text \<open>\<open>str.lower()\<close>, on the ASCII letters.\<close>

definition lower_char :: "char \<Rightarrow> char" where
  "lower_char c =
     (let n = (of_char c :: nat) in if 65 \<le> n \<and> n \<le> 90 then char_of (n + 32) else c)"

definition lower :: "string \<Rightarrow> string" where
  "lower s = map lower_char s"



section \<open>The world outside the script\<close>

text \<open>
  The script talks to three collaborators: the web (\<open>requests.get\<close>), the local
  staging directory, and Google Drive. Each is modelled by what the script can observe
  of it. Every call that can raise is a branch that yields \<open>Inl\<close> of the error.
\<close>

datatype drive_call = ListFolders | CreateFolder | ListFiles "nat option" | Upload string | Delete nat

datatype error =
    ConnectionError
  | ParseError
  | TypeError
  | ValueError
  | OSError
  | AuthError
  | HttpError drive_call

type_synonym 'a result = "error + 'a"

text \<open>
  An XML element as \<open>xml.etree.ElementTree\<close> presents it: tag, text (\<open>None\<close> when the
  element has no text) and children.
\<close>

datatype xml = Element (tag: string) (node_text: "string option") (children: "xml list")

text \<open>A tag as BeautifulSoup presents it: its name and its attribute dictionary.\<close>

record html_tag =
  tag_name :: string
  attrs :: "string \<rightharpoonup> string"

text \<open>
  A response body, by what its readers make of it: \<open>ET.fromstring\<close> (\<open>None\<close> when it
  raises \<open>ParseError\<close>), BeautifulSoup's tags in document order, and whether
  \<open>iter_content\<close> raises before the body has been read to its end.
\<close>

record content =
  as_xml :: "xml option"
  as_html :: "html_tag list"
  stream_breaks :: bool

datatype http_result = Unreachable | Response nat content

text \<open>
  What the run cannot decide: the answers of the web, \<open>urljoin\<close> (\<open>None\<close> when it raises
  \<open>ValueError\<close>), \<open>mimetypes.guess_type\<close>, whether authentication, a local \<open>open\<close> or a
  Drive call raises, and the size of a listing page, \<open>Suc (page_extra env)\<close> files.
\<close>

record env =
  http_get :: "string \<Rightarrow> http_result"
  urljoin :: "string \<Rightarrow> string \<Rightarrow> string option"
  guess_type :: "string \<Rightarrow> string option"
  auth_fails :: bool
  open_fails :: "string \<Rightarrow> bool"
  api_fails :: "drive_call \<Rightarrow> bool"
  page_extra :: nat

text \<open>
  A Drive entry. Names are not unique in Drive: identity is the id, which is why the
  script lists \<open>id\<close> and \<open>name\<close> and deletes by id.
\<close>

record entry =
  eid :: nat
  ename :: string
  parents :: "nat list"
  is_folder :: bool
  trashed :: bool

record world =
  drive :: "entry list"
  local_files :: "string set"

section \<open>Configuration\<close>

definition SITEMAP_URL :: string where
  "SITEMAP_URL = ''https://cirslinger.github.io/CepheidSitemap/sitemap.xml''"

definition LOCAL_SAVE_DIR :: string where
  "LOCAL_SAVE_DIR = ''./downloads''"

definition DRIVE_FOLDER_NAME :: string where
  "DRIVE_FOLDER_NAME = ''Cepheid PDFs''"

definition LOC_TAG :: string where
  "LOC_TAG = ''{http://www.sitemaps.org/schemas/sitemap/0.9}loc''"

section \<open>Step 1: \<open>get_sitemap_urls\<close>\<close>

text \<open>\<open>Element.iter()\<close>: the element and its descendants in document order.\<close>

fun iter :: "xml \<Rightarrow> xml list" where
  "iter (Element t x cs) = Element t x cs # concat (map iter cs)"

text \<open>\<open>root.findall(".//" + t)\<close>: the proper descendants of \<open>root\<close> with tag \<open>t\<close>.\<close>

definition findall :: "string \<Rightarrow> xml \<Rightarrow> xml list" where
  "findall t root = filter (\<lambda>e. tag e = t) (concat (map iter (children root)))"

text \<open>
  \<^verbatim>\<open>[url for url in urls if "en-US" in url]\<close>: a \<open>None\<close> among the texts makes the
  membership test raise \<open>TypeError\<close>.
\<close>

fun locale_filter :: "string option list \<Rightarrow> string list result" where
  "locale_filter [] = Inr []"
| "locale_filter (None # us) = Inl TypeError"
| "locale_filter (Some u # us) =
     (case locale_filter us of
        Inl e \<Rightarrow> Inl e
      | Inr r \<Rightarrow> Inr (if str_in ''en-US'' u then u # r else r))"

definition get_sitemap_urls :: "env \<Rightarrow> string \<Rightarrow> string list result" where
  "get_sitemap_urls env sitemap_url =
     (case http_get env sitemap_url of
        Unreachable \<Rightarrow> Inl ConnectionError
      | Response status_code body \<Rightarrow>
          if status_code \<noteq> 200 then Inr []
          else (case as_xml body of
                  None \<Rightarrow> Inl ParseError
                | Some root \<Rightarrow> locale_filter (map node_text (findall LOC_TAG root))))"

section \<open>Steps 2 and 3: \<open>is_pdf_url\<close> and \<open>find_pdf_links\<close>\<close>

definition is_pdf_url :: "env \<Rightarrow> string \<Rightarrow> string \<Rightarrow> bool result" where
  "is_pdf_url env href base_url =
     (case urljoin env base_url href of
        None \<Rightarrow> Inl ValueError
      | Some full_url \<Rightarrow>
          if str_in ''.pdf'' (lower full_url) then Inr True
          else Inr (guess_type env full_url = Some ''application/pdf''))"

text \<open>
  The comprehension over the anchors and the loop over the frames do the same to each
  reference: classify it, and keep \<open>urljoin(page_url, ref)\<close> when it is a PDF.
\<close>

fun collect_links :: "env \<Rightarrow> string \<Rightarrow> string list \<Rightarrow> string list result" where
  "collect_links env page_url [] = Inr []"
| "collect_links env page_url (r # rs) =
     (case is_pdf_url env r page_url of
        Inl e \<Rightarrow> Inl e
      | Inr False \<Rightarrow> collect_links env page_url rs
      | Inr True \<Rightarrow>
          (case urljoin env page_url r of
             None \<Rightarrow> Inl ValueError
           | Some u \<Rightarrow>
               (case collect_links env page_url rs of
                  Inl e \<Rightarrow> Inl e
                | Inr us \<Rightarrow> Inr (u # us))))"

text \<open>\<open>soup.find_all(names, attr=True)\<close>, returning the attribute's values.\<close>

definition find_all :: "string list \<Rightarrow> string \<Rightarrow> html_tag list \<Rightarrow> string list" where
  "find_all names attr soup =
     List.map_filter (\<lambda>t. if tag_name t \<in> set names then attrs t attr else None) soup"

text \<open>
  The body of the \<open>try\<close> block. \<open>list(set(pdf_links))\<close> yields each link once, in an
  order Python does not specify; \<open>remdups\<close> picks one.
\<close>

definition find_pdf_links_try :: "env \<Rightarrow> string \<Rightarrow> string list result" where
  "find_pdf_links_try env page_url =
     (case http_get env page_url of
        Unreachable \<Rightarrow> Inl ConnectionError
      | Response status_code body \<Rightarrow>
          if status_code \<noteq> 200 then Inr []
          else (let soup = as_html body in
                case collect_links env page_url (find_all [''a''] ''href'' soup) of
                  Inl e \<Rightarrow> Inl e
                | Inr pdf_links \<Rightarrow>
                    (case collect_links env page_url (find_all [''iframe'', ''embed''] ''src'' soup) of
                       Inl e \<Rightarrow> Inl e
                     | Inr frames \<Rightarrow> Inr (remdups (pdf_links @ frames)))))"

definition find_pdf_links :: "env \<Rightarrow> string \<Rightarrow> string list" where
  "find_pdf_links env page_url =
     (case find_pdf_links_try env page_url of Inl e \<Rightarrow> [] | Inr links \<Rightarrow> links)"

section \<open>Steps 5 to 7: the Drive folder\<close>

text \<open>The store gives a new entry an id that no entry has.\<close>

primrec fresh_id :: "entry list \<Rightarrow> nat" where
  "fresh_id [] = 0"
| "fresh_id (e # es) = max (Suc (eid e)) (fresh_id es)"

text \<open>
  One call of \<open>files().list(q, pageToken)\<close>: a page of the entries that match the query
  and the token of the next page, if there is one.
\<close>

definition files_list :: "env \<Rightarrow> entry list \<Rightarrow> (entry \<Rightarrow> bool) \<Rightarrow> nat option \<Rightarrow> entry list \<times> nat option" where
  "files_list env es q page_token =
     (let hits = filter q es;
          start = (case page_token of None \<Rightarrow> 0 | Some k \<Rightarrow> k);
          rest = drop start hits;
          n = Suc (page_extra env)
      in (take n rest, if n < length rest then Some (start + n) else None))"

definition get_or_create_folder :: "env \<Rightarrow> string \<Rightarrow> world \<Rightarrow> nat result \<times> world" where
  "get_or_create_folder env folder_name w =
     (if api_fails env ListFolders then (Inl (HttpError ListFolders), w)
      else (case fst (files_list env (drive w)
                       (\<lambda>e. is_folder e \<and> ename e = folder_name \<and> \<not> trashed e) None) of
              item # _ \<Rightarrow> (Inr (eid item), w)
            | [] \<Rightarrow>
                if api_fails env CreateFolder then (Inl (HttpError CreateFolder), w)
                else (let folder = \<lparr>eid = fresh_id (drive w), ename = folder_name, parents = [],
                                     is_folder = True, trashed = False\<rparr>
                      in (Inr (eid folder), w\<lparr>drive := drive w @ [folder]\<rparr>))))"

definition in_folder :: "nat \<Rightarrow> entry \<Rightarrow> bool" where
  "in_folder folder_id e \<longleftrightarrow> folder_id \<in> set (parents e) \<and> \<not> trashed e"

text \<open>
  The \<open>while True\<close> loop of \<open>list_files_in_folder\<close>: one page per round, until a page
  comes without a next token.
\<close>

function list_files_loop ::
  "env \<Rightarrow> entry list \<Rightarrow> nat \<Rightarrow> nat option \<Rightarrow> (nat \<times> string) list \<Rightarrow> (nat \<times> string) list result" where
  "list_files_loop env es folder_id page_token files =
     (if api_fails env (ListFiles page_token) then Inl (HttpError (ListFiles page_token))
      else (case files_list env es (in_folder folder_id) page_token of
              (page, next_token) \<Rightarrow>
                (let files' = files @ map (\<lambda>e. (eid e, ename e)) page
                 in case next_token of
                      None \<Rightarrow> Inr files'
                    | Some t \<Rightarrow> list_files_loop env es folder_id (Some t) files')))"
  by pat_completeness auto
termination
  by (relation "measure (\<lambda>(env, es, folder_id, page_token, files).
         length (filter (in_folder folder_id) es) - (case page_token of None \<Rightarrow> 0 | Some k \<Rightarrow> k))")
     (auto simp: files_list_def Let_def split: if_splits option.splits)

declare list_files_loop.simps [simp del]

definition list_files_in_folder :: "env \<Rightarrow> nat \<Rightarrow> world \<Rightarrow> (nat \<times> string) list result" where
  "list_files_in_folder env folder_id w = list_files_loop env (drive w) folder_id None []"

text \<open>
  \<open>upload_to_drive\<close>: \<open>MediaFileUpload\<close> opens the local file, and \<open>files().create\<close>
  makes a new entry in the folder, whatever entries of that name the folder has.
\<close>

definition upload_to_drive :: "env \<Rightarrow> string \<Rightarrow> nat \<Rightarrow> world \<Rightarrow> unit result \<times> world" where
  "upload_to_drive env filepath folder_id w =
     (let name = basename filepath in
      if filepath \<notin> local_files w then (Inl OSError, w)
      else if api_fails env (Upload name) then (Inl (HttpError (Upload name)), w)
      else (Inr (), w\<lparr>drive := drive w @
              [\<lparr>eid = fresh_id (drive w), ename = name, parents = [folder_id],
                is_folder = False, trashed = False\<rparr>]\<rparr>))"

section \<open>Step 8: \<open>download_and_upload_pdf\<close>\<close>

text \<open>
  The body of the \<open>try\<close> block, on the world and \<open>todays_filenames\<close>. \<open>open\<close> raises
  when the path is the staging directory itself (an empty filename) or when the file
  system refuses.
\<close>

definition download_and_upload_pdf_try ::
  "env \<Rightarrow> string \<Rightarrow> nat \<Rightarrow> world \<times> string set \<Rightarrow> unit result \<times> world \<times> string set" where
  "download_and_upload_pdf_try env pdf_url folder_id s =
     (case s of (w, todays_filenames) \<Rightarrow>
      let filename = basename pdf_url;
          local_path = path_join LOCAL_SAVE_DIR filename
      in case http_get env pdf_url of
           Unreachable \<Rightarrow> (Inl ConnectionError, w, todays_filenames)
         | Response status_code body \<Rightarrow>
             if status_code = 200 then
               (if filename = [] \<or> open_fails env local_path then (Inl OSError, w, todays_filenames)
                else (let w1 = w\<lparr>local_files := insert local_path (local_files w)\<rparr> in
                      if stream_breaks body then (Inl ConnectionError, w1, todays_filenames)
                      else (case upload_to_drive env local_path folder_id w1 of
                              (Inl e, w2) \<Rightarrow> (Inl e, w2, todays_filenames)
                            | (Inr u, w2) \<Rightarrow>
                                (Inr (), w2\<lparr>local_files := local_files w2 - {local_path}\<rparr>,
                                 insert filename todays_filenames))))
             else (Inr (), w, todays_filenames))"

text \<open>\<open>except Exception\<close>: the error is printed and dropped.\<close>

definition download_and_upload_pdf ::
  "env \<Rightarrow> string \<Rightarrow> nat \<Rightarrow> world \<times> string set \<Rightarrow> world \<times> string set" where
  "download_and_upload_pdf env pdf_url folder_id s = snd (download_and_upload_pdf_try env pdf_url folder_id s)"

section \<open>Step 9: \<open>clean_up_old_files\<close>\<close>

text \<open>\<open>files().delete(fileId)\<close>: the entry is gone for good, or the call raises.\<close>

definition files_delete :: "env \<Rightarrow> nat \<Rightarrow> world \<Rightarrow> unit result \<times> world" where
  "files_delete env file_id w =
     (if api_fails env (Delete file_id) then (Inl (HttpError (Delete file_id)), w)
      else (Inr (), w\<lparr>drive := filter (\<lambda>e. eid e \<noteq> file_id) (drive w)\<rparr>))"

text \<open>The \<open>for\<close> loop: nothing catches an error of \<open>delete\<close>, so it ends the loop.\<close>

fun delete_outdated :: "env \<Rightarrow> string set \<Rightarrow> (nat \<times> string) list \<Rightarrow> world \<Rightarrow> unit result \<times> world" where
  "delete_outdated env todays_filenames [] w = (Inr (), w)"
| "delete_outdated env todays_filenames ((file_id, name) # files) w =
     (if name \<notin> todays_filenames then
        (case files_delete env file_id w of
           (Inl e, w') \<Rightarrow> (Inl e, w')
         | (Inr u, w') \<Rightarrow> delete_outdated env todays_filenames files w')
      else delete_outdated env todays_filenames files w)"

definition clean_up_old_files :: "env \<Rightarrow> nat \<Rightarrow> string set \<Rightarrow> world \<Rightarrow> unit result \<times> world" where
  "clean_up_old_files env folder_id todays_filenames w =
     (case list_files_in_folder env folder_id w of
        Inl e \<Rightarrow> (Inl e, w)
      | Inr existing_files \<Rightarrow> delete_outdated env todays_filenames existing_files w)"

section \<open>The main routine\<close>

text \<open>The two nested \<open>for\<close> loops of \<open>main\<close>.\<close>

definition process_page :: "env \<Rightarrow> nat \<Rightarrow> string \<Rightarrow> world \<times> string set \<Rightarrow> world \<times> string set" where
  "process_page env folder_id url s =
     (let pdf_links = find_pdf_links env url in
      if pdf_links \<noteq> [] then fold (\<lambda>pdf. download_and_upload_pdf env pdf folder_id) pdf_links s
      else s)"

definition process_pages :: "env \<Rightarrow> nat \<Rightarrow> string list \<Rightarrow> world \<times> string set \<Rightarrow> world \<times> string set" where
  "process_pages env folder_id urls s = fold (process_page env folder_id) urls s"

definition main :: "env \<Rightarrow> world \<Rightarrow> unit result \<times> world" where
  "main env w =
     (case get_sitemap_urls env SITEMAP_URL of
        Inl e \<Rightarrow> (Inl e, w)
      | Inr urls \<Rightarrow>
          if auth_fails env then (Inl AuthError, w)
          else (case get_or_create_folder env DRIVE_FOLDER_NAME w of
                  (Inl e, w1) \<Rightarrow> (Inl e, w1)
                | (Inr folder_id, w1) \<Rightarrow>
                    (case process_pages env folder_id urls (w1, {}) of
                       (w2, todays_filenames) \<Rightarrow>
                         clean_up_old_files env folder_id todays_filenames w2)))"

section \<open>Notions used in the statements\<close>

text \<open>The entry that \<open>files().create\<close> adds for an uploaded file.\<close>

definition new_file :: "entry list \<Rightarrow> string \<Rightarrow> nat \<Rightarrow> entry" where
  "new_file es name folder_id =
     \<lparr>eid = fresh_id es, ename = name, parents = [folder_id], is_folder = False, trashed = False\<rparr>"

text \<open>The local path under which a document is staged.\<close>

definition staging_path :: "string \<Rightarrow> string" where
  "staging_path pdf_url = path_join LOCAL_SAVE_DIR (basename pdf_url)"

text \<open>
  The environment lets every step for this document succeed: the download answers 200
  and streams to its end, the local file can be opened, and the upload does not raise.
\<close>

definition uploads :: "env \<Rightarrow> string \<Rightarrow> bool" where
  "uploads env pdf_url \<longleftrightarrow>
     (case http_get env pdf_url of
        Unreachable \<Rightarrow> False
      | Response status_code body \<Rightarrow>
          status_code = 200 \<and> basename pdf_url \<noteq> [] \<and> \<not> open_fails env (staging_path pdf_url) \<and>
          \<not> stream_breaks body \<and> \<not> api_fails env (Upload (basename pdf_url)))"

text \<open>The index in the listing at which the page of a token starts.\<close>

definition page_start :: "nat option \<Rightarrow> nat" where
  "page_start page_token = (case page_token of None \<Rightarrow> 0 | Some k \<Rightarrow> k)"

text \<open>The complete listing of a folder: id and name of every entry in it.\<close>

definition listing :: "nat \<Rightarrow> world \<Rightarrow> (nat \<times> string) list" where
  "listing folder_id w = map (\<lambda>e. (eid e, ename e)) (filter (in_folder folder_id) (drive w))"

text \<open>The ids that reconciliation has to delete: the listed files whose name is not expected.\<close>

definition outdated_ids :: "string set \<Rightarrow> (nat \<times> string) list \<Rightarrow> nat set" where
  "outdated_ids todays_filenames files = {i. \<exists>n. (i, n) \<in> set files \<and> n \<notin> todays_filenames}"

text \<open>The world without the entries of the given ids.\<close>

definition without :: "nat set \<Rightarrow> world \<Rightarrow> world" where
  "without ids w = w\<lparr>drive := filter (\<lambda>e. eid e \<notin> ids) (drive w)\<rparr>"



text \<open>The Drive after files of the given names have been created in a folder, one by one.\<close>

primrec add_files :: "entry list \<Rightarrow> string list \<Rightarrow> nat \<Rightarrow> entry list" where
  "add_files es [] folder_id = es"
| "add_files es (n # ns) folder_id = add_files (es @ [new_file es n folder_id]) ns folder_id"

text \<open>The names of the entries of a folder.\<close>

definition remote_names :: "nat \<Rightarrow> world \<Rightarrow> string set" where
  "remote_names folder_id w = ename ` {e \<in> set (drive w). in_folder folder_id e}"


section \<open>A small site and a small Drive, for the concrete cases\<close>

text \<open>
  The sitemap lists an en-US page and an fr-FR page. The en-US page links \<open>doc1.pdf\<close>
  and \<open>notes.txt\<close> from anchors and embeds \<open>doc2.pdf\<close> in a frame. Every other URL
  answers with a document. Listing pages hold one file each.
\<close>

definition pdf_body :: content where
  "pdf_body = \<lparr>as_xml = None, as_html = [], stream_breaks = False\<rparr>"

definition sitemap_root :: xml where
  "sitemap_root =
     Element ''urlset'' None
       [Element ''url'' None [Element LOC_TAG (Some ''https://example.org/en-US/a'') []],
        Element ''url'' None [Element LOC_TAG (Some ''https://example.org/fr-FR/a'') []]]"

definition sitemap_body :: content where
  "sitemap_body = \<lparr>as_xml = Some sitemap_root, as_html = [], stream_breaks = False\<rparr>"

text \<open>A sitemap that lists the fr-FR page only.\<close>

definition sitemap_root_fr :: xml where
  "sitemap_root_fr =
     Element ''urlset'' None
       [Element ''url'' None [Element LOC_TAG (Some ''https://example.org/fr-FR/a'') []]]"

definition sitemap_body_fr :: content where
  "sitemap_body_fr = \<lparr>as_xml = Some sitemap_root_fr, as_html = [], stream_breaks = False\<rparr>"

definition page_body :: content where
  "page_body =
     \<lparr>as_xml = None,
      as_html = [\<lparr>tag_name = ''a'', attrs = [''href'' \<mapsto> ''doc1.pdf'']\<rparr>,
                 \<lparr>tag_name = ''a'', attrs = [''href'' \<mapsto> ''notes.txt'']\<rparr>,
                 \<lparr>tag_name = ''iframe'', attrs = [''src'' \<mapsto> ''doc2.pdf'']\<rparr>],
      stream_breaks = False\<rparr>"

definition site :: env where
  "site =
     \<lparr>http_get = (\<lambda>u. if u = SITEMAP_URL then Response 200 sitemap_body
                      else if u = ''https://example.org/en-US/a'' then Response 200 page_body
                      else Response 200 pdf_body),
      urljoin = (\<lambda>base r. Some (''https://example.org/en-US/'' @ r)),
      guess_type = (\<lambda>u. None),
      auth_fails = False,
      open_fails = (\<lambda>p. False),
      api_fails = (\<lambda>c. False),
      page_extra = 0\<rparr>"

text \<open>A Drive with the target folder (id 7) holding \<open>old.pdf\<close> and \<open>doc2.pdf\<close>.\<close>

definition target_folder :: entry where
  "target_folder = \<lparr>eid = 7, ename = DRIVE_FOLDER_NAME, parents = [], is_folder = True, trashed = False\<rparr>"

definition remote_file :: "nat \<Rightarrow> string \<Rightarrow> entry" where
  "remote_file i name = \<lparr>eid = i, ename = name, parents = [7], is_folder = False, trashed = False\<rparr>"

definition world0 :: world where
  "world0 = \<lparr>drive = [target_folder, remote_file 8 ''old.pdf'', remote_file 9 ''doc2.pdf''],
             local_files = {}\<rparr>"

text \<open>The same Drive with a third file, \<open>stale.pdf\<close>, in the folder.\<close>

definition world1 :: world where
  "world1 = \<lparr>drive = [target_folder, remote_file 8 ''old.pdf'', remote_file 9 ''doc2.pdf'',
                      remote_file 10 ''stale.pdf''],
             local_files = {}\<rparr>"

section \<open>Properties of the string functions\<close>

lemma rfind_aux_absent: "c \<notin> set xs \<Longrightarrow> rfind_aux c xs i best = best"
  by (induction xs arbitrary: i best) auto

lemma rfind_aux_present:
  "c \<in> set xs \<Longrightarrow>
     (\<exists>k < length xs. rfind_aux c xs i best = i + int k \<and> xs ! k = c \<and> c \<notin> set (drop (Suc k) xs))"
proof (induction xs arbitrary: i best)
  case Nil
  then show ?case by simp
next
  case (Cons x xs)
  show ?case
  proof (cases "c \<in> set xs")
    case True
    from Cons.IH [OF True, of "i + 1" "if x = c then i else best"]
    obtain k where k: "k < length xs"
      "rfind_aux c xs (i + 1) (if x = c then i else best) = i + 1 + int k"
      "xs ! k = c" "c \<notin> set (drop (Suc k) xs)"
      by blast
    then show ?thesis
      by (intro exI [of _ "Suc k"]) simp
  next
    case False
    with Cons.prems have "x = c" by simp
    with False show ?thesis
      by (intro exI [of _ 0]) (simp add: rfind_aux_absent)
  qed
qed

lemma basename_no_slash: "CHR ''/'' \<notin> set p \<Longrightarrow> basename p = p"
  by (simp add: basename_def rfind_def rfind_aux_absent)

lemma basename_split:
  assumes "CHR ''/'' \<in> set p"
  shows "\<exists>pre. p = pre @ ''/'' @ basename p \<and> CHR ''/'' \<notin> set (basename p)"
proof -
  from rfind_aux_present [OF assms, of 0 "- 1"]
  obtain k where k: "k < length p" "rfind (CHR ''/'') p = int k" "p ! k = CHR ''/''"
    "CHR ''/'' \<notin> set (drop (Suc k) p)"
    by (auto simp: rfind_def)
  have b: "basename p = drop (Suc k) p"
    using k(2) by (simp add: basename_def nat_add_distrib)
  have "p = take k p @ p ! k # drop (Suc k) p"
    using k(1) by (simp add: id_take_nth_drop)
  with k b show ?thesis
    by (intro exI [of _ "take k p"]) simp
qed

lemma basename_after_last_slash:
  "basename p = rev (takeWhile (\<lambda>c. c \<noteq> CHR ''/'') (rev p))"
proof (cases "CHR ''/'' \<in> set p")
  case True
  from basename_split [OF True] obtain pre where
    p: "p = pre @ ''/'' @ basename p" and n: "CHR ''/'' \<notin> set (basename p)"
    by blast
  have "rev p = rev (basename p) @ CHR ''/'' # rev pre"
    by (subst p) simp
  moreover have "\<forall>c \<in> set (rev (basename p)). c \<noteq> CHR ''/''"
    using n by auto
  ultimately have "takeWhile (\<lambda>c. c \<noteq> CHR ''/'') (rev p) = rev (basename p)"
    by (simp add: takeWhile_tail)
  then show ?thesis by simp
next
  case False
  then have tw: "takeWhile (\<lambda>c. c \<noteq> CHR ''/'') (rev p) = rev p"
    by (auto simp: takeWhile_eq_all_conv)
  show ?thesis
    unfolding tw using False by (simp add: basename_no_slash)
qed

lemma basename_has_no_slash: "CHR ''/'' \<notin> set (basename p)"
proof -
  have "set (takeWhile (\<lambda>c. c \<noteq> CHR ''/'') (rev p)) \<subseteq> {c. c \<noteq> CHR ''/''}"
    by (auto dest: set_takeWhileD)
  then show ?thesis
    by (auto simp: basename_after_last_slash)
qed

lemma startswith_iff: "startswith s sub \<longleftrightarrow> (\<exists>q. s = sub @ q)"
  by (induction s sub rule: startswith.induct) auto

lemma str_in_iff: "str_in sub s \<longleftrightarrow> (\<exists>p q. s = p @ sub @ q)"
proof (induction s)
  case Nil
  then show ?case by auto
next
  case (Cons x xs)
  show ?case
  proof
    assume "str_in sub (x # xs)"
    then consider "startswith (x # xs) sub" | "str_in sub xs" by auto
    then show "\<exists>p q. x # xs = p @ sub @ q"
    proof cases
      case 1
      then obtain q where "x # xs = sub @ q" by (auto simp: startswith_iff)
      then have "x # xs = [] @ sub @ q" by simp
      then show ?thesis by blast
    next
      case 2
      with Cons.IH obtain p q where "xs = p @ sub @ q" by blast
      then have "x # xs = (x # p) @ sub @ q" by simp
      then show ?thesis by blast
    qed
  next
    assume "\<exists>p q. x # xs = p @ sub @ q"
    then obtain p q where pq: "x # xs = p @ sub @ q" by blast
    show "str_in sub (x # xs)"
    proof (cases p)
      case Nil
      with pq have "startswith (x # xs) sub" by (auto simp: startswith_iff)
      then show ?thesis by simp
    next
      case (Cons y ys)
      with pq have "xs = ys @ sub @ q" by simp
      with Cons.IH have "str_in sub xs" by blast
      then show ?thesis by simp
    qed
  qed
qed

section \<open>The filename of a document\<close>

lemma basename_append_slash:
  "CHR ''/'' \<notin> set b \<Longrightarrow> basename (a @ CHR ''/'' # b) = b"
proof -
  assume n: "CHR ''/'' \<notin> set b"
  have "takeWhile (\<lambda>c. c \<noteq> CHR ''/'') (rev b @ CHR ''/'' # rev a) = rev b"
    using n by (auto simp: takeWhile_tail)
  then show ?thesis
    by (simp add: basename_after_last_slash)
qed

lemma basename_staging_path: "basename (staging_path pdf_url) = basename pdf_url"
proof -
  have n: "CHR ''/'' \<notin> set (basename pdf_url)" by (rule basename_has_no_slash)
  then have "basename pdf_url \<noteq> [] \<Longrightarrow> hd (basename pdf_url) \<noteq> CHR ''/''"
    by (cases "basename pdf_url") auto
  then have "staging_path pdf_url = LOCAL_SAVE_DIR @ ''/'' @ basename pdf_url"
    by (auto simp: staging_path_def path_join_def LOCAL_SAVE_DIR_def)
  with n show ?thesis
    by (simp add: basename_append_slash)
qed

lemma download_and_upload_pdf_uploads:
  assumes "uploads env pdf_url"
  shows "download_and_upload_pdf env pdf_url folder_id (w, t) =
     (w\<lparr>drive := drive w @ [new_file (drive w) (basename pdf_url) folder_id],
        local_files := local_files w - {staging_path pdf_url}\<rparr>,
      insert (basename pdf_url) t)"
  using assms
  by (auto simp: uploads_def download_and_upload_pdf_def download_and_upload_pdf_try_def
      upload_to_drive_def Let_def new_file_def basename_staging_path
      staging_path_def [symmetric] split: http_result.splits)


lemmas eval_lower = lower_def lower_char_def char_of_def bit_Suc_0_iff







section \<open>The Source Enumerator\<close>

lemma locale_filter_sound:
  "locale_filter us = Inr r \<Longrightarrow> x \<in> set r \<Longrightarrow> Some x \<in> set us \<and> str_in ''en-US'' x"
proof (induction us arbitrary: r rule: locale_filter.induct)
  case 1
  then show ?case by simp
next
  case (2 us)
  then show ?case by simp
next
  case (3 u us)
  from "3.prems"(1) obtain r' where r': "locale_filter us = Inr r'"
    and r: "r = (if str_in ''en-US'' u then u # r' else r')"
    by (auto split: sum.splits)
  show ?case
  proof (cases "x \<in> set r'")
    case True
    with "3.IH" [OF r'] show ?thesis by simp
  next
    case False
    with r "3.prems"(2) have "x = u" "str_in ''en-US'' u" by (auto split: if_splits)
    then show ?thesis by simp
  qed
qed

lemma locale_filter_total:
  "None \<notin> set us \<Longrightarrow> locale_filter us = Inr (filter (str_in ''en-US'') (map the us))"
  by (induction us rule: locale_filter.induct) auto

text \<open>
  Claim C7: for a sitemap that is fetched with status 200 and parses, every URL that
  \<open>get_sitemap_urls\<close> returns is the text of a \<open>loc\<close> element and contains the locale
  filter \<open>en-US\<close>; and when every \<open>loc\<close> element has text it does return: the \<open>loc\<close>
  texts that contain \<open>en-US\<close>, in document order.
\<close>

theorem get_sitemap_urls_subset_of_loc_with_locale:
  assumes "http_get env sitemap_url = Response 200 body" and "as_xml body = Some root"
  shows "(None \<notin> set (map node_text (findall LOC_TAG root)) \<longrightarrow>
            get_sitemap_urls env sitemap_url
              = Inr (filter (str_in ''en-US'') (map the (map node_text (findall LOC_TAG root))))) \<and>
         (\<forall>urls. get_sitemap_urls env sitemap_url = Inr urls \<longrightarrow>
            (\<forall>x \<in> set urls. Some x \<in> set (map node_text (findall LOC_TAG root)) \<and>
                              (\<exists>p q. x = p @ ''en-US'' @ q)))"
proof -
  have g: "get_sitemap_urls env sitemap_url = locale_filter (map node_text (findall LOC_TAG root))"
    using assms by (simp add: get_sitemap_urls_def)
  show ?thesis
  proof (intro conjI impI allI ballI)
    assume "None \<notin> set (map node_text (findall LOC_TAG root))"
    then show "get_sitemap_urls env sitemap_url
        = Inr (filter (str_in ''en-US'') (map the (map node_text (findall LOC_TAG root))))"
      unfolding g by (rule locale_filter_total)
  next
    fix urls x
    assume "get_sitemap_urls env sitemap_url = Inr urls" "x \<in> set urls"
    then show "Some x \<in> set (map node_text (findall LOC_TAG root))"
      unfolding g by (rule locale_filter_sound [THEN conjunct1])
  next
    fix urls x
    assume "get_sitemap_urls env sitemap_url = Inr urls" "x \<in> set urls"
    then have "str_in ''en-US'' x"
      unfolding g by (rule locale_filter_sound [THEN conjunct2])
    then show "\<exists>p q. x = p @ ''en-US'' @ q"
      by (simp only: str_in_iff)
  qed
qed

lemma site_sitemap: "http_get site SITEMAP_URL = Response 200 sitemap_body"
  by (simp add: site_def)

lemma site_locs:
  "map node_text (findall LOC_TAG sitemap_root)
   = [Some ''https://example.org/en-US/a'', Some ''https://example.org/fr-FR/a'']"
  by (simp add: findall_def sitemap_root_def LOC_TAG_def)

text \<open>
  Claim C7 on the small site, whose sitemap lists an en-US and an fr-FR page: only the
  en-US page is returned.
\<close>

theorem get_sitemap_urls_subset_of_loc_with_locale_witness:
  "http_get site SITEMAP_URL = Response 200 sitemap_body \<and>
   as_xml sitemap_body = Some sitemap_root \<and>
   None \<notin> set (map node_text (findall LOC_TAG sitemap_root)) \<and>
   get_sitemap_urls site SITEMAP_URL = Inr [''https://example.org/en-US/a''] \<and>
   Some ''https://example.org/en-US/a'' \<in> set (map node_text (findall LOC_TAG sitemap_root))"
proof -
  have x: "as_xml sitemap_body = Some sitemap_root"
    by (simp add: sitemap_body_def)
  have n: "None \<notin> set (map node_text (findall LOC_TAG sitemap_root))"
    by (simp only: site_locs) simp
  note t = get_sitemap_urls_subset_of_loc_with_locale [OF site_sitemap x]
  from t n have "get_sitemap_urls site SITEMAP_URL
      = Inr (filter (str_in ''en-US'') (map the (map node_text (findall LOC_TAG sitemap_root))))"
    by blast
  then have g: "get_sitemap_urls site SITEMAP_URL = Inr [''https://example.org/en-US/a'']"
    by (simp only: site_locs) simp
  with t have "Some ''https://example.org/en-US/a'' \<in> set (map node_text (findall LOC_TAG sitemap_root))"
    by simp
  with site_sitemap x n g show ?thesis by blast
qed

section \<open>The Link Extractor\<close>

lemma collect_links_sound:
  "collect_links env page_url rs = Inr us \<Longrightarrow> x \<in> set us \<Longrightarrow>
     \<exists>r \<in> set rs. urljoin env page_url r = Some x \<and> is_pdf_url env r page_url = Inr True"
proof (induction rs arbitrary: us)
  case Nil
  then show ?case by simp
next
  case (Cons r rs)
  show ?case
  proof (cases "is_pdf_url env r page_url")
    case (Inl e)
    with Cons.prems show ?thesis by simp
  next
    case (Inr b)
    show ?thesis
    proof (cases b)
      case False
      with Inr Cons.prems have "collect_links env page_url rs = Inr us" by simp
      from Cons.IH [OF this Cons.prems(2)] show ?thesis by auto
    next
      case True
      with Inr Cons.prems(1) obtain u us' where u: "urljoin env page_url r = Some u"
        and us': "collect_links env page_url rs = Inr us'" and us: "us = u # us'"
        by (auto split: option.splits sum.splits)
      show ?thesis
      proof (cases "x = u")
        case True
        with u Inr \<open>b\<close> show ?thesis by auto
      next
        case False
        with us Cons.prems(2) have "x \<in> set us'" by simp
        from Cons.IH [OF us' this] show ?thesis by auto
      qed
    qed
  qed
qed

lemma collect_links_raises:
  "r \<in> set rs \<Longrightarrow> urljoin env page_url r = None \<Longrightarrow> \<exists>e. collect_links env page_url rs = Inl e"
proof (induction rs)
  case Nil
  then show ?case by simp
next
  case (Cons a rs)
  show ?case
  proof (cases "r = a")
    case True
    with Cons.prems show ?thesis by (simp add: is_pdf_url_def)
  next
    case False
    with Cons have "\<exists>e. collect_links env page_url rs = Inl e" by simp
    then show ?thesis
      by (auto split: sum.splits option.splits bool.splits)
  qed
qed

lemma process_page_no_links:
  "find_pdf_links env url = [] \<Longrightarrow> process_page env folder_id url s = s"
  by (simp add: process_page_def)

lemma process_pages_append:
  "process_pages env folder_id (us @ vs) s = process_pages env folder_id vs (process_pages env folder_id us s)"
  by (simp add: process_pages_def)

lemma process_pages_Cons:
  "process_pages env folder_id (u # us) s = process_pages env folder_id us (process_page env folder_id u s)"
  by (simp add: process_pages_def)

text \<open>
  Claim C8: \<open>find_pdf_links\<close> returns no URL twice; every URL it returns is
  \<open>urljoin(page_url, ref)\<close> for an anchor \<open>href\<close> or a frame \<open>src\<close> of the page that
  \<open>is_pdf_url\<close> accepts; it returns the empty list when the page is unreachable, answers
  with another status than 200, or holds a reference on which \<open>urljoin\<close> raises; and a
  page without links leaves the run as it was and lets the pages after it be processed.
\<close>

theorem find_pdf_links_distinct_and_failure_isolated:
  "distinct (find_pdf_links env page_url) \<and>
   (\<forall>status_code body. http_get env page_url = Response status_code body \<longrightarrow>
      (\<forall>x \<in> set (find_pdf_links env page_url).
         \<exists>r \<in> set (find_all [''a''] ''href'' (as_html body)) \<union>
                set (find_all [''iframe'', ''embed''] ''src'' (as_html body)).
           urljoin env page_url r = Some x \<and> is_pdf_url env r page_url = Inr True) \<and>
      (status_code \<noteq> 200 \<longrightarrow> find_pdf_links env page_url = []) \<and>
      ((\<exists>r \<in> set (find_all [''a''] ''href'' (as_html body)) \<union>
                set (find_all [''iframe'', ''embed''] ''src'' (as_html body)).
           urljoin env page_url r = None) \<and> status_code = 200 \<longrightarrow> find_pdf_links env page_url = [])) \<and>
   (http_get env page_url = Unreachable \<longrightarrow> find_pdf_links env page_url = []) \<and>
   (find_pdf_links env page_url = [] \<longrightarrow>
      process_pages env folder_id (before @ page_url # after) s
        = process_pages env folder_id after (process_pages env folder_id before s))"
proof (intro conjI allI impI ballI)
  show "distinct (find_pdf_links env page_url)"
    by (auto simp: find_pdf_links_def find_pdf_links_try_def Let_def
        split: sum.splits http_result.splits if_splits)
next
  fix status_code body x
  assume r: "http_get env page_url = Response status_code body"
    and x: "x \<in> set (find_pdf_links env page_url)"
  from r x obtain l1 l2 where l1: "collect_links env page_url (find_all [''a''] ''href'' (as_html body)) = Inr l1"
    and l2: "collect_links env page_url (find_all [''iframe'', ''embed''] ''src'' (as_html body)) = Inr l2"
    and "x \<in> set l1 \<union> set l2"
    by (auto simp: find_pdf_links_def find_pdf_links_try_def Let_def split: sum.splits if_splits)
  then consider "x \<in> set l1" | "x \<in> set l2" by blast
  then show "\<exists>r \<in> set (find_all [''a''] ''href'' (as_html body)) \<union>
                set (find_all [''iframe'', ''embed''] ''src'' (as_html body)).
           urljoin env page_url r = Some x \<and> is_pdf_url env r page_url = Inr True"
  proof cases
    case 1
    from collect_links_sound [OF l1 1] show ?thesis by blast
  next
    case 2
    from collect_links_sound [OF l2 2] show ?thesis by blast
  qed
next
  fix status_code body
  assume "http_get env page_url = Response status_code body" "status_code \<noteq> 200"
  then show "find_pdf_links env page_url = []"
    by (simp add: find_pdf_links_def find_pdf_links_try_def)
next
  fix status_code body
  assume r: "http_get env page_url = Response status_code body"
    and b: "(\<exists>r \<in> set (find_all [''a''] ''href'' (as_html body)) \<union>
                set (find_all [''iframe'', ''embed''] ''src'' (as_html body)).
           urljoin env page_url r = None) \<and> status_code = 200"
  then obtain ref where "ref \<in> set (find_all [''a''] ''href'' (as_html body)) \<or>
      ref \<in> set (find_all [''iframe'', ''embed''] ''src'' (as_html body))"
    and n: "urljoin env page_url ref = None"
    by blast
  then consider "ref \<in> set (find_all [''a''] ''href'' (as_html body))"
    | "ref \<in> set (find_all [''iframe'', ''embed''] ''src'' (as_html body))" by blast
  then have "\<exists>e. find_pdf_links_try env page_url = Inl e"
  proof cases
    case 1
    from collect_links_raises [OF 1 n] r b show ?thesis
      by (auto simp: find_pdf_links_try_def)
  next
    case 2
    from collect_links_raises [OF 2 n] r b show ?thesis
      by (auto simp: find_pdf_links_try_def Let_def split: sum.splits)
  qed
  then show "find_pdf_links env page_url = []"
    by (auto simp: find_pdf_links_def)
next
  assume "http_get env page_url = Unreachable"
  then show "find_pdf_links env page_url = []"
    by (simp add: find_pdf_links_def find_pdf_links_try_def)
next
  assume "find_pdf_links env page_url = []"
  then show "process_pages env folder_id (before @ page_url # after) s
        = process_pages env folder_id after (process_pages env folder_id before s)"
    by (simp add: process_pages_append process_pages_Cons process_page_no_links)
qed

lemma site_page: "http_get site ''https://example.org/en-US/a'' = Response 200 page_body"
  by (simp add: site_def SITEMAP_URL_def)

lemma site_page_refs:
  "find_all [''a''] ''href'' (as_html page_body) = [''doc1.pdf'', ''notes.txt'']"
  "find_all [''iframe'', ''embed''] ''src'' (as_html page_body) = [''doc2.pdf'']"
  by (simp_all add: find_all_def page_body_def List.map_filter_def)

text \<open>Any environment that serves the page of the small site finds its two documents.\<close>

lemma page_links:
  assumes "http_get env ''https://example.org/en-US/a'' = Response 200 page_body"
    and "\<And>r. urljoin env ''https://example.org/en-US/a'' r = Some (''https://example.org/en-US/'' @ r)"
    and "\<And>u. guess_type env u = None"
  shows "find_pdf_links env ''https://example.org/en-US/a''
     = [''https://example.org/en-US/doc1.pdf'', ''https://example.org/en-US/doc2.pdf'']"
  by (simp add: find_pdf_links_def find_pdf_links_try_def assms site_page_refs is_pdf_url_def eval_lower)

lemma site_urljoin: "urljoin site b r = Some (''https://example.org/en-US/'' @ r)"
  by (simp add: site_def)

lemma site_guess_type: "guess_type site u = None"
  by (simp add: site_def)

lemma site_page_links:
  "find_pdf_links site ''https://example.org/en-US/a''
     = [''https://example.org/en-US/doc1.pdf'', ''https://example.org/en-US/doc2.pdf'']"
  by (rule page_links) (simp_all add: site_page site_urljoin site_guess_type)

text \<open>
  Claim C8 on the small site, where the page yields \<open>doc1.pdf\<close> and \<open>doc2.pdf\<close> but not
  \<open>notes.txt\<close>, and on the same site when the page answers 404, is unreachable, or
  \<open>urljoin\<close> raises: the page then yields nothing and the run goes on.
\<close>

theorem find_pdf_links_distinct_and_failure_isolated_witness:
  "http_get site ''https://example.org/en-US/a'' = Response 200 page_body \<and>
   find_pdf_links site ''https://example.org/en-US/a''
     = [''https://example.org/en-US/doc1.pdf'', ''https://example.org/en-US/doc2.pdf''] \<and>
   (\<exists>r. urljoin site ''https://example.org/en-US/a'' r = Some ''https://example.org/en-US/doc1.pdf'' \<and>
        is_pdf_url site r ''https://example.org/en-US/a'' = Inr True) \<and>
   (\<exists>r. urljoin site ''https://example.org/en-US/a'' r = Some ''https://example.org/en-US/doc2.pdf'' \<and>
        is_pdf_url site r ''https://example.org/en-US/a'' = Inr True) \<and>
   http_get (site\<lparr>http_get := \<lambda>u. Response 404 pdf_body\<rparr>) ''https://example.org/en-US/a''
     = Response 404 pdf_body \<and> (404::nat) \<noteq> 200 \<and>
   find_pdf_links (site\<lparr>http_get := \<lambda>u. Response 404 pdf_body\<rparr>) ''https://example.org/en-US/a'' = [] \<and>
   process_pages (site\<lparr>http_get := \<lambda>u. Response 404 pdf_body\<rparr>) 7
       ([] @ ''https://example.org/en-US/a'' # [''https://example.org/en-US/b'']) (world0, {})
     = process_pages (site\<lparr>http_get := \<lambda>u. Response 404 pdf_body\<rparr>) 7
       [''https://example.org/en-US/b''] (world0, {}) \<and>
   http_get (site\<lparr>http_get := \<lambda>u. Unreachable\<rparr>) ''https://example.org/en-US/a'' = Unreachable \<and>
   find_pdf_links (site\<lparr>http_get := \<lambda>u. Unreachable\<rparr>) ''https://example.org/en-US/a'' = [] \<and>
   ''doc1.pdf'' \<in> set (find_all [''a''] ''href'' (as_html page_body)) \<and>
   urljoin (site\<lparr>urljoin := \<lambda>b r. None\<rparr>) ''https://example.org/en-US/a'' ''doc1.pdf'' = None \<and>
   find_pdf_links (site\<lparr>urljoin := \<lambda>b r. None\<rparr>) ''https://example.org/en-US/a'' = []"
proof -
  note a = find_pdf_links_distinct_and_failure_isolated
    [of site "''https://example.org/en-US/a''" 7 "[]" "[]" "(world0, {})"]
  note b = find_pdf_links_distinct_and_failure_isolated
    [of "site\<lparr>http_get := \<lambda>u. Response 404 pdf_body\<rparr>" "''https://example.org/en-US/a''"
        7 "[]" "[''https://example.org/en-US/b'']" "(world0, {})"]
  note c = find_pdf_links_distinct_and_failure_isolated
    [of "site\<lparr>http_get := \<lambda>u. Unreachable\<rparr>" "''https://example.org/en-US/a''" 7 "[]" "[]" "(world0, {})"]
  note d = find_pdf_links_distinct_and_failure_isolated
    [of "site\<lparr>urljoin := \<lambda>b r. None\<rparr>" "''https://example.org/en-US/a''" 7 "[]" "[]" "(world0, {})"]
  have b1: "http_get (site\<lparr>http_get := \<lambda>u. Response 404 pdf_body\<rparr>) ''https://example.org/en-US/a''
     = Response 404 pdf_body" by simp
  have c1: "http_get (site\<lparr>http_get := \<lambda>u. Unreachable\<rparr>) ''https://example.org/en-US/a'' = Unreachable"
    by simp
  have d1: "http_get (site\<lparr>urljoin := \<lambda>b r. None\<rparr>) ''https://example.org/en-US/a'' = Response 200 page_body"
    using site_page by (simp add: site_def)
  have d2: "urljoin (site\<lparr>urljoin := \<lambda>b r. None\<rparr>) ''https://example.org/en-US/a'' ''doc1.pdf'' = None"
    by simp
  have d3: "''doc1.pdf'' \<in> set (find_all [''a''] ''href'' (as_html page_body))"
    by (simp add: site_page_refs)
  from a site_page have a1:
    "\<forall>x \<in> set (find_pdf_links site ''https://example.org/en-US/a'').
      \<exists>r \<in> set (find_all [''a''] ''href'' (as_html page_body)) \<union>
             set (find_all [''iframe'', ''embed''] ''src'' (as_html page_body)).
         urljoin site ''https://example.org/en-US/a'' r = Some x \<and>
         is_pdf_url site r ''https://example.org/en-US/a'' = Inr True"
    by blast
  have a2: "(\<exists>r. urljoin site ''https://example.org/en-US/a'' r = Some ''https://example.org/en-US/doc1.pdf'' \<and>
        is_pdf_url site r ''https://example.org/en-US/a'' = Inr True) \<and>
   (\<exists>r. urljoin site ''https://example.org/en-US/a'' r = Some ''https://example.org/en-US/doc2.pdf'' \<and>
        is_pdf_url site r ''https://example.org/en-US/a'' = Inr True)"
    using a1 unfolding site_page_links by auto
  from b b1 have b2: "find_pdf_links (site\<lparr>http_get := \<lambda>u. Response 404 pdf_body\<rparr>) ''https://example.org/en-US/a'' = []"
    by simp
  with b have b3: "process_pages (site\<lparr>http_get := \<lambda>u. Response 404 pdf_body\<rparr>) 7
       ([] @ ''https://example.org/en-US/a'' # [''https://example.org/en-US/b'']) (world0, {})
     = process_pages (site\<lparr>http_get := \<lambda>u. Response 404 pdf_body\<rparr>) 7
       [''https://example.org/en-US/b''] (world0, {})"
    by (simp add: process_pages_def)
  from c c1 have c2: "find_pdf_links (site\<lparr>http_get := \<lambda>u. Unreachable\<rparr>) ''https://example.org/en-US/a'' = []"
    by simp
  from d d1 d2 d3 have d4: "find_pdf_links (site\<lparr>urljoin := \<lambda>b r. None\<rparr>) ''https://example.org/en-US/a'' = []"
    by blast
  from site_page site_page_links a2 b1 b2 b3 c1 c2 d2 d3 d4 show ?thesis
    by simp
qed

section \<open>Listing the folder\<close>

lemma files_list_page:
  "files_list env es q page_token = (page, next_token) \<Longrightarrow>
     page = take (Suc (page_extra env)) (drop (page_start page_token) (filter q es)) \<and>
     (case next_token of
        None \<Rightarrow> length (filter q es) \<le> page_start page_token + Suc (page_extra env)
      | Some t \<Rightarrow> t = page_start page_token + Suc (page_extra env) \<and> t < length (filter q es))"
  by (auto simp: files_list_def Let_def page_start_def split: if_splits option.splits)

lemma list_files_loop_result:
  "list_files_loop env es folder_id page_token files = Inr result \<Longrightarrow>
     result = files @ map (\<lambda>e. (eid e, ename e)) (drop (page_start page_token) (filter (in_folder folder_id) es))"
proof (induction env es folder_id page_token files rule: list_files_loop.induct)
  case (1 env es folder_id page_token files)
  obtain page next_token where p: "files_list env es (in_folder folder_id) page_token = (page, next_token)"
    by (cases "files_list env es (in_folder folder_id) page_token")
  note fp = files_list_page [OF p]
  let ?hits = "filter (in_folder folder_id) es"
  let ?s = "page_start page_token"
  let ?n = "Suc (page_extra env)"
  from "1.prems" have nf: "\<not> api_fails env (ListFiles page_token)"
    by (subst (asm) list_files_loop.simps) (auto split: if_splits)
  show ?case
  proof (cases next_token)
    case None
    with fp have "length (drop ?s ?hits) \<le> ?n" and "page = take ?n (drop ?s ?hits)"
      by auto
    then have "drop ?s ?hits = page" by (simp only: take_all)
    moreover from "1.prems" p None nf have "result = files @ map (\<lambda>e. (eid e, ename e)) page"
      by (subst (asm) list_files_loop.simps) simp
    ultimately show ?thesis by simp
  next
    case (Some t)
    with fp have t: "t = ?s + ?n" by simp
    from "1.prems" p Some nf have r: "list_files_loop env es folder_id (Some t)
        (files @ map (\<lambda>e. (eid e, ename e)) page) = Inr result"
      by (subst (asm) list_files_loop.simps) simp
    from "1.IH" [OF nf p [symmetric] refl Some r]
    have "result = (files @ map (\<lambda>e. (eid e, ename e)) page) @
        map (\<lambda>e. (eid e, ename e)) (drop (page_start (Some t)) ?hits)" .
    moreover have "drop ?s ?hits = page @ drop (page_start (Some t)) ?hits"
    proof -
      have "drop ?s ?hits = take ?n (drop ?s ?hits) @ drop ?n (drop ?s ?hits)"
        by (simp only: append_take_drop_id)
      with fp t show ?thesis by (simp add: page_start_def add.commute)
    qed
    ultimately show ?thesis by simp
  qed
qed

lemma list_files_loop_total:
  "\<forall>t. \<not> api_fails env (ListFiles t) \<Longrightarrow>
     \<exists>result. list_files_loop env es folder_id page_token files = Inr result"
proof (induction env es folder_id page_token files rule: list_files_loop.induct)
  case (1 env es folder_id page_token files)
  obtain page next_token where p: "files_list env es (in_folder folder_id) page_token = (page, next_token)"
    by (cases "files_list env es (in_folder folder_id) page_token")
  from "1.prems" have nf: "\<not> api_fails env (ListFiles page_token)" by simp
  show ?case
  proof (cases next_token)
    case None
    with p nf show ?thesis
      by (subst list_files_loop.simps) simp
  next
    case (Some t)
    from "1.IH" [OF nf p [symmetric] refl Some "1.prems"] p nf Some show ?thesis
      by (subst list_files_loop.simps) simp
  qed
qed

lemma list_files_in_folder_result:
  "list_files_in_folder env folder_id w = Inr files \<Longrightarrow> files = listing folder_id w"
  by (auto simp: list_files_in_folder_def listing_def page_start_def dest: list_files_loop_result)

lemma list_files_in_folder_total:
  "\<forall>t. \<not> api_fails env (ListFiles t) \<Longrightarrow> list_files_in_folder env folder_id w = Inr (listing folder_id w)"
  using list_files_loop_total [of env "drive w" folder_id None "[]"] list_files_in_folder_result [of env folder_id w]
  by (auto simp: list_files_in_folder_def)

section \<open>The Reconciler\<close>

lemma without_without: "without a (without b w) = without (a \<union> b) w"
  by (simp add: without_def conj_commute)

lemma without_empty: "without {} w = w"
  by (simp add: without_def)

lemma outdated_ids_Cons:
  "outdated_ids t ((i, n) # files) = (if n \<notin> t then insert i (outdated_ids t files) else outdated_ids t files)"
  by (auto simp: outdated_ids_def)

lemma outdated_ids_append:
  "outdated_ids t (pre @ post) = outdated_ids t pre \<union> outdated_ids t post"
  by (auto simp: outdated_ids_def)

lemma files_delete_ok:
  "\<not> api_fails env (Delete i) \<Longrightarrow> files_delete env i w = (Inr (), without {i} w)"
  by (simp add: files_delete_def without_def)

lemma files_delete_raises:
  "api_fails env (Delete i) \<Longrightarrow> files_delete env i w = (Inl (HttpError (Delete i)), w)"
  by (simp add: files_delete_def)

text \<open>When no deletion raises, the loop removes every outdated file.\<close>

lemma delete_outdated_ok:
  "\<forall>i \<in> outdated_ids t files. \<not> api_fails env (Delete i) \<Longrightarrow>
     delete_outdated env t files w = (Inr (), without (outdated_ids t files) w)"
proof (induction files arbitrary: w)
  case Nil
  then show ?case by (simp add: outdated_ids_def without_empty)
next
  case (Cons f files)
  obtain i n where f: "f = (i, n)" by (cases f)
  from Cons.prems f have rest: "\<forall>i \<in> outdated_ids t files. \<not> api_fails env (Delete i)"
    by (auto simp: outdated_ids_Cons split: if_splits)
  show ?case
  proof (cases "n \<in> t")
    case True
    with f Cons.IH [OF rest] show ?thesis
      by (simp add: outdated_ids_Cons)
  next
    case False
    with Cons.prems f have "\<not> api_fails env (Delete i)"
      by (simp add: outdated_ids_Cons)
    with False f Cons.IH [OF rest, of "without {i} w"] show ?thesis
      by (simp add: outdated_ids_Cons files_delete_ok without_without Un_commute)
  qed
qed

text \<open>The first deletion that raises ends the loop with what was deleted before it.\<close>

lemma delete_outdated_raises:
  assumes "n \<notin> t" and "api_fails env (Delete i)"
    and "\<forall>j \<in> outdated_ids t pre. \<not> api_fails env (Delete j)"
  shows "delete_outdated env t (pre @ (i, n) # post) w
           = (Inl (HttpError (Delete i)), without (outdated_ids t pre) w)"
  using assms(3)
proof (induction pre arbitrary: w)
  case Nil
  with assms(1,2) show ?case
    by (simp add: files_delete_raises outdated_ids_def without_empty)
next
  case (Cons f pre)
  obtain j m where f: "f = (j, m)" by (cases f)
  from Cons.prems f have rest: "\<forall>j \<in> outdated_ids t pre. \<not> api_fails env (Delete j)"
    by (auto simp: outdated_ids_Cons split: if_splits)
  show ?case
  proof (cases "m \<in> t")
    case True
    with f Cons.IH [OF rest] show ?thesis
      by (simp add: outdated_ids_Cons)
  next
    case False
    with Cons.prems f have "\<not> api_fails env (Delete j)"
      by (simp add: outdated_ids_Cons)
    with False f Cons.IH [OF rest, of "without {j} w"] show ?thesis
      by (simp add: outdated_ids_Cons files_delete_ok without_without Un_commute)
  qed
qed






section \<open>The small site, step by step\<close>

text \<open>
  The runs below are on the small site with some Drive calls made to raise:
  \<open>site\<lparr>api_fails := f\<rparr>\<close>. The web side of such an environment is that of \<open>site\<close>.
\<close>

lemma basename_docs:
  "basename ''https://example.org/en-US/doc1.pdf'' = ''doc1.pdf''"
  "basename ''https://example.org/en-US/doc2.pdf'' = ''doc2.pdf''"
  by (simp_all add: basename_def rfind_def)

lemma site_docs:
  "http_get site ''https://example.org/en-US/doc1.pdf'' = Response 200 pdf_body"
  "http_get site ''https://example.org/en-US/doc2.pdf'' = Response 200 pdf_body"
  by (simp_all add: site_def SITEMAP_URL_def)

lemma site_uploads:
  "uploads (site\<lparr>api_fails := f\<rparr>) ''https://example.org/en-US/doc1.pdf'' \<longleftrightarrow> \<not> f (Upload ''doc1.pdf'')"
  "uploads (site\<lparr>api_fails := f\<rparr>) ''https://example.org/en-US/doc2.pdf'' \<longleftrightarrow> \<not> f (Upload ''doc2.pdf'')"
  by (simp_all add: uploads_def site_docs basename_docs pdf_body_def) (simp_all add: site_def)

lemma site_urls_gen:
  "get_sitemap_urls (site\<lparr>api_fails := f\<rparr>) SITEMAP_URL = Inr [''https://example.org/en-US/a'']"
  by (simp add: get_sitemap_urls_def site_sitemap sitemap_body_def site_locs)

lemma site_links_gen:
  "find_pdf_links (site\<lparr>api_fails := f\<rparr>) ''https://example.org/en-US/a''
     = [''https://example.org/en-US/doc1.pdf'', ''https://example.org/en-US/doc2.pdf'']"
  by (rule page_links) (simp_all add: site_page site_urljoin site_guess_type)

lemma world0_folder:
  "\<not> f ListFolders \<Longrightarrow>
     get_or_create_folder (site\<lparr>api_fails := f\<rparr>) DRIVE_FOLDER_NAME (w\<lparr>drive := target_folder # es\<rparr>)
       = (Inr 7, w\<lparr>drive := target_folder # es\<rparr>)"
  by (simp add: get_or_create_folder_def files_list_def target_folder_def)

lemma fresh_id_world0: "fresh_id (drive world0) = 10"
  by (simp add: world0_def target_folder_def remote_file_def)

lemma page_start_simps: "page_start None = 0" "page_start (Some k) = k"
  by (simp_all add: page_start_def)

lemma in_folder_fixture:
  "in_folder 7 (remote_file i n)" "\<not> in_folder 7 target_folder"
  "in_folder k (new_file es n k)"
  by (simp_all add: in_folder_def remote_file_def target_folder_def new_file_def)

lemma world0_listing: "listing 7 world0 = [(8, ''old.pdf''), (9, ''doc2.pdf'')]"
  by (simp add: listing_def world0_def in_folder_fixture) (simp add: remote_file_def)




section \<open>The run as a whole\<close>

lemma main_steps:
  assumes "get_sitemap_urls env SITEMAP_URL = Inr urls" and "\<not> auth_fails env"
    and "get_or_create_folder env DRIVE_FOLDER_NAME w = (Inr folder_id, w1)"
    and "process_pages env folder_id urls (w1, {}) = (w2, t)"
  shows "main env w = clean_up_old_files env folder_id t w2"
  using assms by (simp add: main_def)

lemma site_auth: "\<not> auth_fails (site\<lparr>api_fails := f\<rparr>)"
  by (simp add: site_def)

lemma staging_docs:
  "staging_path ''https://example.org/en-US/doc1.pdf'' = ''./downloads/doc1.pdf''"
  "staging_path ''https://example.org/en-US/doc2.pdf'' = ''./downloads/doc2.pdf''"
  by (simp_all add: staging_path_def basename_docs path_join_def LOCAL_SAVE_DIR_def)

text \<open>The page of the small site when both uploads succeed.\<close>

lemma site_process_both:
  assumes "\<not> f (Upload ''doc1.pdf'')" and "\<not> f (Upload ''doc2.pdf'')"
  shows "process_pages (site\<lparr>api_fails := f\<rparr>) folder_id [''https://example.org/en-US/a''] (w, t)
     = (w\<lparr>drive := drive w @ [new_file (drive w) ''doc1.pdf'' folder_id,
            new_file (drive w @ [new_file (drive w) ''doc1.pdf'' folder_id]) ''doc2.pdf'' folder_id],
          local_files := local_files w - {''./downloads/doc1.pdf''} - {''./downloads/doc2.pdf''}\<rparr>,
        insert ''doc2.pdf'' (insert ''doc1.pdf'' t))"
proof -
  have u: "uploads (site\<lparr>api_fails := f\<rparr>) ''https://example.org/en-US/doc1.pdf''"
    "uploads (site\<lparr>api_fails := f\<rparr>) ''https://example.org/en-US/doc2.pdf''"
    using assms by (simp_all add: site_uploads)
  show ?thesis
    by (simp add: process_pages_def process_page_def site_links_gen
        download_and_upload_pdf_uploads [OF u(1)] download_and_upload_pdf_uploads [OF u(2)]
        basename_docs staging_docs)
qed

text \<open>The page of the small site when the upload of \<open>doc2.pdf\<close> raises.\<close>

lemma site_upload_doc2_raises:
  assumes "f (Upload ''doc2.pdf'')"
  shows "download_and_upload_pdf_try (site\<lparr>api_fails := f\<rparr>) ''https://example.org/en-US/doc2.pdf'' folder_id (w, t)
     = (Inl (HttpError (Upload ''doc2.pdf'')),
        w\<lparr>local_files := insert ''./downloads/doc2.pdf'' (local_files w)\<rparr>, t)"
proof -
  have b: "basename ''./downloads/doc2.pdf'' = ''doc2.pdf''"
    using basename_staging_path [of "''https://example.org/en-US/doc2.pdf''"]
    by (simp add: staging_docs basename_docs)
  have p: "path_join LOCAL_SAVE_DIR ''doc2.pdf'' = ''./downloads/doc2.pdf''"
    using staging_docs(2) by (simp add: staging_path_def basename_docs)
  have o: "\<not> open_fails site ''./downloads/doc2.pdf''"
    by (simp add: site_def)
  show ?thesis
    using assms
    by (simp add: download_and_upload_pdf_try_def site_docs basename_docs p o pdf_body_def
        upload_to_drive_def b Let_def)
qed

lemma site_process_doc2_raises:
  assumes "\<not> f (Upload ''doc1.pdf'')" and "f (Upload ''doc2.pdf'')"
  shows "process_pages (site\<lparr>api_fails := f\<rparr>) folder_id [''https://example.org/en-US/a''] (w, t)
     = (w\<lparr>drive := drive w @ [new_file (drive w) ''doc1.pdf'' folder_id],
          local_files := insert ''./downloads/doc2.pdf'' (local_files w - {''./downloads/doc1.pdf''})\<rparr>,
        insert ''doc1.pdf'' t)"
proof -
  have u: "uploads (site\<lparr>api_fails := f\<rparr>) ''https://example.org/en-US/doc1.pdf''"
    using assms by (simp add: site_uploads)
  have s1: "download_and_upload_pdf (site\<lparr>api_fails := f\<rparr>) ''https://example.org/en-US/doc1.pdf'' folder_id (w, t)
      = (w\<lparr>drive := drive w @ [new_file (drive w) ''doc1.pdf'' folder_id],
           local_files := local_files w - {''./downloads/doc1.pdf''}\<rparr>, insert ''doc1.pdf'' t)"
    by (simp add: download_and_upload_pdf_uploads [OF u] basename_docs staging_docs)
  have s2: "download_and_upload_pdf (site\<lparr>api_fails := f\<rparr>) ''https://example.org/en-US/doc2.pdf'' folder_id
        (w\<lparr>drive := drive w @ [new_file (drive w) ''doc1.pdf'' folder_id],
           local_files := local_files w - {''./downloads/doc1.pdf''}\<rparr>, insert ''doc1.pdf'' t)
      = (w\<lparr>drive := drive w @ [new_file (drive w) ''doc1.pdf'' folder_id],
          local_files := insert ''./downloads/doc2.pdf'' (local_files w - {''./downloads/doc1.pdf''})\<rparr>,
        insert ''doc1.pdf'' t)"
    unfolding download_and_upload_pdf_def
    by (simp add: site_upload_doc2_raises [of f, OF assms(2)])
  show ?thesis
    by (simp add: process_pages_def process_page_def site_links_gen s1 s2)
qed

text \<open>The small Drive after the uploads of a run, as the reconciler finds it.\<close>

lemma world0_after_both:
  "world0\<lparr>drive := drive world0 @ [new_file (drive world0) ''doc1.pdf'' 7,
            new_file (drive world0 @ [new_file (drive world0) ''doc1.pdf'' 7]) ''doc2.pdf'' 7],
          local_files := local_files world0 - {''./downloads/doc1.pdf''} - {''./downloads/doc2.pdf''}\<rparr>
   = \<lparr>drive = [target_folder, remote_file 8 ''old.pdf'', remote_file 9 ''doc2.pdf'',
                remote_file 10 ''doc1.pdf'', remote_file 11 ''doc2.pdf''], local_files = {}\<rparr>"
  by (simp add: world0_def new_file_def remote_file_def target_folder_def)

lemma world0_after_doc2_raises:
  "world0\<lparr>drive := drive world0 @ [new_file (drive world0) ''doc1.pdf'' 7],
          local_files := insert ''./downloads/doc2.pdf'' (local_files world0 - {''./downloads/doc1.pdf''})\<rparr>
   = \<lparr>drive = [target_folder, remote_file 8 ''old.pdf'', remote_file 9 ''doc2.pdf'',
                remote_file 10 ''doc1.pdf''], local_files = {''./downloads/doc2.pdf''}\<rparr>"
  by (simp add: world0_def new_file_def remote_file_def target_folder_def)

lemma world0_is_folder_first: "world0 = world0\<lparr>drive := target_folder # tl (drive world0)\<rparr>"
  by (simp add: world0_def)

lemma site_main_both:
  assumes "\<not> f ListFolders" and "\<not> f (Upload ''doc1.pdf'')" and "\<not> f (Upload ''doc2.pdf'')"
  shows "main (site\<lparr>api_fails := f\<rparr>) world0
     = clean_up_old_files (site\<lparr>api_fails := f\<rparr>) 7 {''doc1.pdf'', ''doc2.pdf''}
         \<lparr>drive = [target_folder, remote_file 8 ''old.pdf'', remote_file 9 ''doc2.pdf'',
                remote_file 10 ''doc1.pdf'', remote_file 11 ''doc2.pdf''], local_files = {}\<rparr>"
proof -
  have g: "get_or_create_folder (site\<lparr>api_fails := f\<rparr>) DRIVE_FOLDER_NAME world0 = (Inr 7, world0)"
    using world0_folder [where f = f and w = world0 and es = "tl (drive world0)", OF assms(1)] world0_is_folder_first by simp
  have p: "process_pages (site\<lparr>api_fails := f\<rparr>) 7 [''https://example.org/en-US/a''] (world0, {})
      = (\<lparr>drive = [target_folder, remote_file 8 ''old.pdf'', remote_file 9 ''doc2.pdf'',
                remote_file 10 ''doc1.pdf'', remote_file 11 ''doc2.pdf''], local_files = {}\<rparr>,
         {''doc2.pdf'', ''doc1.pdf''})"
    by (simp only: site_process_both [of f, OF assms(2,3)] world0_after_both)
  have "{''doc2.pdf'', ''doc1.pdf''} = {''doc1.pdf'', ''doc2.pdf''}" by (rule insert_commute)
  with main_steps [OF site_urls_gen site_auth g p] show ?thesis by simp
qed

lemma site_main_doc2_raises:
  assumes "\<not> f ListFolders" and "\<not> f (Upload ''doc1.pdf'')" and "f (Upload ''doc2.pdf'')"
  shows "main (site\<lparr>api_fails := f\<rparr>) world0
     = clean_up_old_files (site\<lparr>api_fails := f\<rparr>) 7 {''doc1.pdf''}
         \<lparr>drive = [target_folder, remote_file 8 ''old.pdf'', remote_file 9 ''doc2.pdf'',
                remote_file 10 ''doc1.pdf''], local_files = {''./downloads/doc2.pdf''}\<rparr>"
proof -
  have g: "get_or_create_folder (site\<lparr>api_fails := f\<rparr>) DRIVE_FOLDER_NAME world0 = (Inr 7, world0)"
    using world0_folder [where f = f and w = world0 and es = "tl (drive world0)", OF assms(1)] world0_is_folder_first by simp
  have p: "process_pages (site\<lparr>api_fails := f\<rparr>) 7 [''https://example.org/en-US/a''] (world0, {})
      = (\<lparr>drive = [target_folder, remote_file 8 ''old.pdf'', remote_file 9 ''doc2.pdf'',
                remote_file 10 ''doc1.pdf''], local_files = {''./downloads/doc2.pdf''}\<rparr>,
         {''doc1.pdf''})"
    by (simp only: site_process_doc2_raises [of f, OF assms(2,3)] world0_after_doc2_raises)
  from main_steps [OF site_urls_gen site_auth g p] show ?thesis .
qed

section \<open>What a run uploads\<close>


lemma add_files_append:
  "add_files es (ns @ ms) folder_id = add_files (add_files es ns folder_id) ms folder_id"
  by (induction ns arbitrary: es) auto













section \<open>The small site when the upload of \<open>doc2.pdf\<close> raises\<close>

lemma delete_old_and_doc2:
  assumes "\<forall>t. \<not> f (ListFiles t)" and "\<not> f (Delete 8)" and "\<not> f (Delete 9)"
  shows "clean_up_old_files (site\<lparr>api_fails := f\<rparr>) 7 {''doc1.pdf''}
         \<lparr>drive = [target_folder, remote_file 8 ''old.pdf'', remote_file 9 ''doc2.pdf'',
                remote_file 10 ''doc1.pdf''], local_files = l\<rparr>
     = (Inr (), \<lparr>drive = [target_folder, remote_file 10 ''doc1.pdf''], local_files = l\<rparr>)"
proof -
  let ?w = "\<lparr>drive = [target_folder, remote_file 8 ''old.pdf'', remote_file 9 ''doc2.pdf'',
                remote_file 10 ''doc1.pdf''], local_files = l\<rparr>"
  have "listing 7 ?w = [(8, ''old.pdf''), (9, ''doc2.pdf''), (10, ''doc1.pdf'')]"
    by (simp add: listing_def in_folder_fixture) (simp add: remote_file_def)
  moreover have "\<forall>t. \<not> api_fails (site\<lparr>api_fails := f\<rparr>) (ListFiles t)"
    using assms(1) by simp
  ultimately have l: "list_files_in_folder (site\<lparr>api_fails := f\<rparr>) 7 ?w
      = Inr [(8, ''old.pdf''), (9, ''doc2.pdf''), (10, ''doc1.pdf'')]"
    using list_files_in_folder_total [of "site\<lparr>api_fails := f\<rparr>" 7 ?w] by simp
  have "delete_outdated (site\<lparr>api_fails := f\<rparr>) {''doc1.pdf''}
      [(8, ''old.pdf''), (9, ''doc2.pdf''), (10, ''doc1.pdf'')] ?w
      = (Inr (), \<lparr>drive = [target_folder, remote_file 10 ''doc1.pdf''], local_files = l\<rparr>)"
    using assms(2,3) by (simp add: files_delete_def target_folder_def remote_file_def)
  with l show ?thesis
    by (simp add: clean_up_old_files_def)
qed

lemma site_run_doc2_raises:
  "main (site\<lparr>api_fails := \<lambda>c. c = Upload ''doc2.pdf''\<rparr>) world0
     = (Inr (), \<lparr>drive = [target_folder, remote_file 10 ''doc1.pdf''],
                 local_files = {''./downloads/doc2.pdf''}\<rparr>)"
  by (simp add: site_main_doc2_raises delete_old_and_doc2)

text \<open>
  In general: when the download succeeds and the upload raises, the staged file is among
  the local files after the call.
\<close>

lemma download_and_upload_pdf_leaves_staged_file:
  assumes "http_get env pdf_url = Response 200 body" and "basename pdf_url \<noteq> []"
    and "\<not> open_fails env (staging_path pdf_url)" and "\<not> stream_breaks body"
    and "api_fails env (Upload (basename pdf_url))"
  shows "download_and_upload_pdf env pdf_url folder_id (w, t)
           = (w\<lparr>local_files := insert (staging_path pdf_url) (local_files w)\<rparr>, t)"
  using assms
  by (simp add: download_and_upload_pdf_def download_and_upload_pdf_try_def upload_to_drive_def
      Let_def basename_staging_path staging_path_def [symmetric])

text \<open>
  Claim C4, where the download of \<open>doc2.pdf\<close> succeeds and its upload raises: the staged
  file is still in the staging directory after \<open>download_and_upload_pdf\<close>, and after the
  run. \<open>os.remove\<close> is reached only when the upload has returned.
\<close>

theorem staging_file_left_when_upload_raises:
  "download_and_upload_pdf (site\<lparr>api_fails := \<lambda>c. c = Upload ''doc2.pdf''\<rparr>)
       ''https://example.org/en-US/doc2.pdf'' 7 (world0, {})
     = (world0\<lparr>local_files := {''./downloads/doc2.pdf''}\<rparr>, {}) \<and>
   local_files (snd (main (site\<lparr>api_fails := \<lambda>c. c = Upload ''doc2.pdf''\<rparr>) world0))
     = {''./downloads/doc2.pdf''}"
  by (simp add: download_and_upload_pdf_def site_upload_doc2_raises site_run_doc2_raises)
    (simp add: world0_def)

section \<open>The expected filenames\<close>



section \<open>A deletion that raises\<close>

lemma world1_is_folder_first: "world1 = world1\<lparr>drive := target_folder # tl (drive world1)\<rparr>"
  by (simp add: world1_def)

lemma world1_after_doc2_raises:
  "world1\<lparr>drive := drive world1 @ [new_file (drive world1) ''doc1.pdf'' 7],
          local_files := insert ''./downloads/doc2.pdf'' (local_files world1 - {''./downloads/doc1.pdf''})\<rparr>
   = \<lparr>drive = [target_folder, remote_file 8 ''old.pdf'', remote_file 9 ''doc2.pdf'',
                remote_file 10 ''stale.pdf'', remote_file 11 ''doc1.pdf''],
       local_files = {''./downloads/doc2.pdf''}\<rparr>"
  by (simp add: world1_def new_file_def remote_file_def target_folder_def)

text \<open>
  The run on the Drive with \<open>stale.pdf\<close>, when the upload of \<open>doc2.pdf\<close> and the deletion
  of the old \<open>doc2.pdf\<close> (id 9) raise: up to the reconciliation.
\<close>

lemma site_run_delete_raises_steps:
  "get_sitemap_urls (site\<lparr>api_fails := \<lambda>c. c = Upload ''doc2.pdf'' \<or> c = Delete 9\<rparr>) SITEMAP_URL
     = Inr [''https://example.org/en-US/a'']"
  "\<not> auth_fails (site\<lparr>api_fails := \<lambda>c. c = Upload ''doc2.pdf'' \<or> c = Delete 9\<rparr>)"
  "get_or_create_folder (site\<lparr>api_fails := \<lambda>c. c = Upload ''doc2.pdf'' \<or> c = Delete 9\<rparr>)
     DRIVE_FOLDER_NAME world1 = (Inr 7, world1)"
  "process_pages (site\<lparr>api_fails := \<lambda>c. c = Upload ''doc2.pdf'' \<or> c = Delete 9\<rparr>) 7
     [''https://example.org/en-US/a''] (world1, {})
     = (\<lparr>drive = [target_folder, remote_file 8 ''old.pdf'', remote_file 9 ''doc2.pdf'',
                remote_file 10 ''stale.pdf'', remote_file 11 ''doc1.pdf''],
         local_files = {''./downloads/doc2.pdf''}\<rparr>, {''doc1.pdf''})"
  "list_files_in_folder (site\<lparr>api_fails := \<lambda>c. c = Upload ''doc2.pdf'' \<or> c = Delete 9\<rparr>) 7
     \<lparr>drive = [target_folder, remote_file 8 ''old.pdf'', remote_file 9 ''doc2.pdf'',
                remote_file 10 ''stale.pdf'', remote_file 11 ''doc1.pdf''],
         local_files = {''./downloads/doc2.pdf''}\<rparr>
     = Inr ([(8, ''old.pdf'')] @ (9, ''doc2.pdf'') # [(10, ''stale.pdf''), (11, ''doc1.pdf'')])"
proof -
  let ?f = "\<lambda>c. c = Upload ''doc2.pdf'' \<or> c = Delete 9"
  let ?w2 = "\<lparr>drive = [target_folder, remote_file 8 ''old.pdf'', remote_file 9 ''doc2.pdf'',
                remote_file 10 ''stale.pdf'', remote_file 11 ''doc1.pdf''],
         local_files = {''./downloads/doc2.pdf''}\<rparr>"
  show "get_sitemap_urls (site\<lparr>api_fails := ?f\<rparr>) SITEMAP_URL = Inr [''https://example.org/en-US/a'']"
    by (rule site_urls_gen)
  show "\<not> auth_fails (site\<lparr>api_fails := ?f\<rparr>)"
    by (rule site_auth)
  show "get_or_create_folder (site\<lparr>api_fails := ?f\<rparr>) DRIVE_FOLDER_NAME world1 = (Inr 7, world1)"
    using world0_folder [where f = ?f and w = world1 and es = "tl (drive world1)"]
      world1_is_folder_first by simp
  show "process_pages (site\<lparr>api_fails := ?f\<rparr>) 7 [''https://example.org/en-US/a''] (world1, {})
     = (?w2, {''doc1.pdf''})"
    using site_process_doc2_raises [of ?f 7 world1 "{}"]
    by (simp only: world1_after_doc2_raises) simp
  have "listing 7 ?w2 = [(8, ''old.pdf''), (9, ''doc2.pdf''), (10, ''stale.pdf''), (11, ''doc1.pdf'')]"
    by (simp add: listing_def in_folder_fixture) (simp add: remote_file_def)
  then show "list_files_in_folder (site\<lparr>api_fails := ?f\<rparr>) 7 ?w2
     = Inr ([(8, ''old.pdf'')] @ (9, ''doc2.pdf'') # [(10, ''stale.pdf''), (11, ''doc1.pdf'')])"
    using list_files_in_folder_total [of "site\<lparr>api_fails := ?f\<rparr>" 7 ?w2] by simp
qed

lemma outdated_old: "outdated_ids {''doc1.pdf''} [(8, ''old.pdf'')] = {8}"
  by (auto simp: outdated_ids_def)

lemma without_old:
  "without {8} \<lparr>drive = [target_folder, remote_file 8 ''old.pdf'', remote_file 9 ''doc2.pdf'',
                remote_file 10 ''stale.pdf'', remote_file 11 ''doc1.pdf''], local_files = l\<rparr>
   = \<lparr>drive = [target_folder, remote_file 9 ''doc2.pdf'', remote_file 10 ''stale.pdf'',
                remote_file 11 ''doc1.pdf''], local_files = l\<rparr>"
  by (simp add: without_def target_folder_def remote_file_def)

text \<open>
  Claim C5, on the Drive with \<open>stale.pdf\<close> when the deletion of the old \<open>doc2.pdf\<close>
  raises: the run ends with that error, and \<open>stale.pdf\<close>, which is not expected and
  whose deletion would not raise, is still in the folder.
\<close>

theorem deletion_failure_skips_remaining_files:
  "main (site\<lparr>api_fails := \<lambda>c. c = Upload ''doc2.pdf'' \<or> c = Delete 9\<rparr>) world1
     = (Inl (HttpError (Delete 9)),
        \<lparr>drive = [target_folder, remote_file 9 ''doc2.pdf'', remote_file 10 ''stale.pdf'',
                  remote_file 11 ''doc1.pdf''], local_files = {''./downloads/doc2.pdf''}\<rparr>) \<and>
   \<not> api_fails (site\<lparr>api_fails := \<lambda>c. c = Upload ''doc2.pdf'' \<or> c = Delete 9\<rparr>) (Delete 10) \<and>
   ''stale.pdf'' \<notin> {''doc1.pdf''}"
proof -
  let ?E = "site\<lparr>api_fails := \<lambda>c. c = Upload ''doc2.pdf'' \<or> c = Delete 9\<rparr>"
  have "delete_outdated ?E {''doc1.pdf''}
      ([(8, ''old.pdf'')] @ (9, ''doc2.pdf'') # [(10, ''stale.pdf''), (11, ''doc1.pdf'')])
      \<lparr>drive = [target_folder, remote_file 8 ''old.pdf'', remote_file 9 ''doc2.pdf'',
                remote_file 10 ''stale.pdf'', remote_file 11 ''doc1.pdf''],
         local_files = {''./downloads/doc2.pdf''}\<rparr>
     = (Inl (HttpError (Delete 9)),
        \<lparr>drive = [target_folder, remote_file 9 ''doc2.pdf'', remote_file 10 ''stale.pdf'',
                  remote_file 11 ''doc1.pdf''], local_files = {''./downloads/doc2.pdf''}\<rparr>)"
    by (subst delete_outdated_raises) (simp_all add: outdated_old without_old)
  then show ?thesis
    by (simp add: main_steps [OF site_run_delete_raises_steps(1-4)] clean_up_old_files_def
        site_run_delete_raises_steps(5))
qed

text \<open>
  Claim C5, amended: nothing catches an error of \<open>delete\<close>. Reconciliation deletes the
  outdated files listed before the first one whose deletion raises, leaves that file and
  every file listed after it in place, and ends with the error, which is also the outcome
  of the run.
\<close>

theorem deletion_failure_aborts_reconciliation:
  assumes "list_files_in_folder env folder_id w2 = Inr (pre @ (i, n) # post)"
    and "n \<notin> t" and "api_fails env (Delete i)"
    and "\<forall>j \<in> outdated_ids t pre. \<not> api_fails env (Delete j)"
  shows "clean_up_old_files env folder_id t w2
           = (Inl (HttpError (Delete i)), without (outdated_ids t pre) w2) \<and>
         (get_sitemap_urls env SITEMAP_URL = Inr urls \<and> \<not> auth_fails env \<and>
          get_or_create_folder env DRIVE_FOLDER_NAME w = (Inr folder_id, w1) \<and>
          process_pages env folder_id urls (w1, {}) = (w2, t) \<longrightarrow>
            main env w = (Inl (HttpError (Delete i)), without (outdated_ids t pre) w2))"
proof -
  have c: "clean_up_old_files env folder_id t w2
      = (Inl (HttpError (Delete i)), without (outdated_ids t pre) w2)"
    using assms(1) delete_outdated_raises [OF assms(2-4), of post w2]
    by (simp add: clean_up_old_files_def)
  then show ?thesis
    by (auto simp: main_steps)
qed

text \<open>Claim C5, amended, on the same run: \<open>old.pdf\<close> is deleted, then the run ends.\<close>

theorem deletion_failure_aborts_reconciliation_witness:
  "list_files_in_folder (site\<lparr>api_fails := \<lambda>c. c = Upload ''doc2.pdf'' \<or> c = Delete 9\<rparr>) 7
     \<lparr>drive = [target_folder, remote_file 8 ''old.pdf'', remote_file 9 ''doc2.pdf'',
                remote_file 10 ''stale.pdf'', remote_file 11 ''doc1.pdf''],
         local_files = {''./downloads/doc2.pdf''}\<rparr>
     = Inr ([(8, ''old.pdf'')] @ (9, ''doc2.pdf'') # [(10, ''stale.pdf''), (11, ''doc1.pdf'')]) \<and>
   ''doc2.pdf'' \<notin> {''doc1.pdf''} \<and>
   api_fails (site\<lparr>api_fails := \<lambda>c. c = Upload ''doc2.pdf'' \<or> c = Delete 9\<rparr>) (Delete 9) \<and>
   outdated_ids {''doc1.pdf''} [(8, ''old.pdf'')] = {8} \<and>
   \<not> api_fails (site\<lparr>api_fails := \<lambda>c. c = Upload ''doc2.pdf'' \<or> c = Delete 9\<rparr>) (Delete 8) \<and>
   main (site\<lparr>api_fails := \<lambda>c. c = Upload ''doc2.pdf'' \<or> c = Delete 9\<rparr>) world1
     = (Inl (HttpError (Delete 9)),
        \<lparr>drive = [target_folder, remote_file 9 ''doc2.pdf'', remote_file 10 ''stale.pdf'',
                  remote_file 11 ''doc1.pdf''], local_files = {''./downloads/doc2.pdf''}\<rparr>)"
proof -
  let ?E = "site\<lparr>api_fails := \<lambda>c. c = Upload ''doc2.pdf'' \<or> c = Delete 9\<rparr>"
  have n: "''doc2.pdf'' \<notin> {''doc1.pdf''}" by simp
  have f: "api_fails ?E (Delete 9)" by simp
  have g: "\<not> api_fails ?E (Delete 8)" by simp
  then have p: "\<forall>j \<in> outdated_ids {''doc1.pdf''} [(8, ''old.pdf'')]. \<not> api_fails ?E (Delete j)"
    by (simp only: outdated_old) simp
  from deletion_failure_aborts_reconciliation [OF site_run_delete_raises_steps(5) n f p,
      of "[''https://example.org/en-US/a'']" world1 world1] site_run_delete_raises_steps(1-4)
  have "main ?E world1 = (Inl (HttpError (Delete 9)),
        \<lparr>drive = [target_folder, remote_file 9 ''doc2.pdf'', remote_file 10 ''stale.pdf'',
                  remote_file 11 ''doc1.pdf''], local_files = {''./downloads/doc2.pdf''}\<rparr>)"
    by (simp only: outdated_old without_old) simp
  with site_run_delete_raises_steps(5) n f g outdated_old show ?thesis
    by blast
qed

section \<open>A sitemap that cannot be fetched\<close>

lemma get_sitemap_urls_non_200:
  "http_get env sitemap_url = Response status_code body \<Longrightarrow> status_code \<noteq> 200 \<Longrightarrow>
     get_sitemap_urls env sitemap_url = Inr []"
  by (simp add: get_sitemap_urls_def)

lemma process_pages_Nil: "process_pages env folder_id [] s = s"
  by (simp add: process_pages_def)

lemma main_non_200:
  assumes "http_get env SITEMAP_URL = Response status_code body" and "status_code \<noteq> 200"
  shows "main env w =
     (if auth_fails env then (Inl AuthError, w)
      else case get_or_create_folder env DRIVE_FOLDER_NAME w of
             (Inl e, w1) \<Rightarrow> (Inl e, w1)
           | (Inr folder_id, w1) \<Rightarrow> clean_up_old_files env folder_id {} w1)"
  by (simp add: main_def get_sitemap_urls_non_200 [OF assms] process_pages_Nil
      split: prod.splits sum.splits)

lemma outdated_ids_nothing_expected: "outdated_ids {} files = fst ` set files"
  by (force simp: outdated_ids_def)

lemma remote_names_without_listing:
  "remote_names folder_id (without (fst ` set (listing folder_id w)) w) = {}"
  by (force simp: remote_names_def without_def listing_def)

text \<open>The small site when every request is answered with status 503.\<close>

lemma site_503_run:
  "main (site\<lparr>http_get := \<lambda>u. Response 503 pdf_body\<rparr>) world0
     = (Inr (), \<lparr>drive = [target_folder], local_files = {}\<rparr>)"
proof -
  let ?E = "site\<lparr>http_get := \<lambda>u. Response 503 pdf_body\<rparr>"
  have a: "\<not> auth_fails ?E" by (simp add: site_def)
  have g: "get_or_create_folder ?E DRIVE_FOLDER_NAME world0 = (Inr 7, world0)"
    by (simp add: get_or_create_folder_def files_list_def target_folder_def world0_def site_def)
  have "\<forall>t. \<not> api_fails ?E (ListFiles t)" by (simp add: site_def)
  from list_files_in_folder_total [OF this, of 7 world0]
  have l: "list_files_in_folder ?E 7 world0 = Inr [(8, ''old.pdf''), (9, ''doc2.pdf'')]"
    by (simp add: world0_listing)
  have d: "delete_outdated ?E {} [(8, ''old.pdf''), (9, ''doc2.pdf'')] world0
      = (Inr (), \<lparr>drive = [target_folder], local_files = {}\<rparr>)"
    by (simp add: files_delete_def site_def world0_def target_folder_def remote_file_def)
  have "main ?E world0 = clean_up_old_files ?E 7 {} world0"
    using main_non_200 [of ?E 503 pdf_body world0] a g by simp
  with l d show ?thesis
    by (simp add: clean_up_old_files_def)
qed

text \<open>
  Claim C2, when the sitemap is answered with status 503: the run does not fail; it
  completes, and it has deleted both files of the folder.
\<close>

theorem non_200_sitemap_run_completes_and_deletes:
  "http_get (site\<lparr>http_get := \<lambda>u. Response 503 pdf_body\<rparr>) SITEMAP_URL = Response 503 pdf_body \<and>
   main (site\<lparr>http_get := \<lambda>u. Response 503 pdf_body\<rparr>) world0
     = (Inr (), \<lparr>drive = [target_folder], local_files = {}\<rparr>) \<and>
   drive world0 = [target_folder, remote_file 8 ''old.pdf'', remote_file 9 ''doc2.pdf'']"
  by (simp add: site_503_run) (simp add: world0_def)

text \<open>
  Claim C2, amended: when the sitemap is unreachable the run ends with the connection
  error before anything is done to the Drive. When the sitemap is answered with another
  status than 200 the run does not fail: no page is visited and nothing is uploaded, the
  folder is looked up or created, and reconciliation runs against an empty
  \<open>todays_filenames\<close>.
\<close>

theorem sitemap_unreachable_aborts_non_200_proceeds:
  "(http_get env SITEMAP_URL = Unreachable \<longrightarrow> main env w = (Inl ConnectionError, w)) \<and>
   (http_get env SITEMAP_URL = Response status_code body \<and> status_code \<noteq> 200 \<longrightarrow>
      main env w =
        (if auth_fails env then (Inl AuthError, w)
         else case get_or_create_folder env DRIVE_FOLDER_NAME w of
                (Inl e, w1) \<Rightarrow> (Inl e, w1)
              | (Inr folder_id, w1) \<Rightarrow> clean_up_old_files env folder_id {} w1))"
proof (intro conjI impI)
  assume "http_get env SITEMAP_URL = Unreachable"
  then show "main env w = (Inl ConnectionError, w)"
    by (simp add: main_def get_sitemap_urls_def)
next
  assume "http_get env SITEMAP_URL = Response status_code body \<and> status_code \<noteq> 200"
  then show "main env w =
        (if auth_fails env then (Inl AuthError, w)
         else case get_or_create_folder env DRIVE_FOLDER_NAME w of
                (Inl e, w1) \<Rightarrow> (Inl e, w1)
              | (Inr folder_id, w1) \<Rightarrow> clean_up_old_files env folder_id {} w1)"
    by (simp add: main_non_200)
qed

text \<open>
  Claim C2, amended, on the small site when it is unreachable and when it answers 503.
\<close>

theorem sitemap_unreachable_aborts_non_200_proceeds_witness:
  "http_get (site\<lparr>http_get := \<lambda>u. Unreachable\<rparr>) SITEMAP_URL = Unreachable \<and>
   main (site\<lparr>http_get := \<lambda>u. Unreachable\<rparr>) world0 = (Inl ConnectionError, world0) \<and>
   http_get (site\<lparr>http_get := \<lambda>u. Response 503 pdf_body\<rparr>) SITEMAP_URL = Response 503 pdf_body \<and>
   (503::nat) \<noteq> 200 \<and>
   main (site\<lparr>http_get := \<lambda>u. Response 503 pdf_body\<rparr>) world0
     = clean_up_old_files (site\<lparr>http_get := \<lambda>u. Response 503 pdf_body\<rparr>) 7 {} world0"
proof -
  have g: "get_or_create_folder (site\<lparr>http_get := \<lambda>u. Response 503 pdf_body\<rparr>) DRIVE_FOLDER_NAME world0
      = (Inr 7, world0)"
    by (simp add: get_or_create_folder_def files_list_def target_folder_def world0_def site_def)
  have a: "\<not> auth_fails (site\<lparr>http_get := \<lambda>u. Response 503 pdf_body\<rparr>)" by (simp add: site_def)
  from sitemap_unreachable_aborts_non_200_proceeds
    [of "site\<lparr>http_get := \<lambda>u. Unreachable\<rparr>" world0 503 pdf_body]
  have u: "main (site\<lparr>http_get := \<lambda>u. Unreachable\<rparr>) world0 = (Inl ConnectionError, world0)"
    by simp
  from sitemap_unreachable_aborts_non_200_proceeds
    [of "site\<lparr>http_get := \<lambda>u. Response 503 pdf_body\<rparr>" world0 503 pdf_body] g a
  have "main (site\<lparr>http_get := \<lambda>u. Response 503 pdf_body\<rparr>) world0
     = clean_up_old_files (site\<lparr>http_get := \<lambda>u. Response 503 pdf_body\<rparr>) 7 {} world0"
    by simp
  with u show ?thesis by simp
qed

text \<open>
  Claim C10: on a status other than 200, \<open>get_sitemap_urls\<close> returns the empty list,
  which is also what it returns for a fetched sitemap none of whose \<open>loc\<close> texts contains
  \<open>en-US\<close>; \<open>main\<close> then reconciles the folder against the empty set, for which every
  listed file is outdated; and when no Drive call raises, the run completes and leaves
  no file in the folder.
\<close>

theorem non_200_sitemap_empties_folder:
  assumes "http_get env SITEMAP_URL = Response status_code body" and "status_code \<noteq> 200"
  shows "get_sitemap_urls env SITEMAP_URL = Inr [] \<and>
         (\<forall>env' body' root.
            http_get env' SITEMAP_URL = Response 200 body' \<and> as_xml body' = Some root \<and>
            (\<forall>x \<in> set (map node_text (findall LOC_TAG root)). \<exists>u. x = Some u \<and> \<not> str_in ''en-US'' u) \<longrightarrow>
            get_sitemap_urls env' SITEMAP_URL = get_sitemap_urls env SITEMAP_URL) \<and>
         (\<not> auth_fails env \<and> get_or_create_folder env DRIVE_FOLDER_NAME w = (Inr folder_id, w1) \<longrightarrow>
            main env w = clean_up_old_files env folder_id {} w1 \<and>
            outdated_ids {} (listing folder_id w1) = fst ` set (listing folder_id w1) \<and>
            ((\<forall>t. \<not> api_fails env (ListFiles t)) \<and> (\<forall>i. \<not> api_fails env (Delete i)) \<longrightarrow>
               main env w = (Inr (), without (fst ` set (listing folder_id w1)) w1) \<and>
               remote_names folder_id (snd (main env w)) = {}))"
proof (intro conjI allI impI)
  show e: "get_sitemap_urls env SITEMAP_URL = Inr []"
    using assms by (rule get_sitemap_urls_non_200)
  {
    fix env' :: env and body' :: content and root :: xml
    assume a: "http_get env' SITEMAP_URL = Response 200 body' \<and> as_xml body' = Some root \<and>
      (\<forall>x \<in> set (map node_text (findall LOC_TAG root)). \<exists>u. x = Some u \<and> \<not> str_in ''en-US'' u)"
    then have n: "None \<notin> set (map node_text (findall LOC_TAG root))" by auto
    have "locale_filter (map node_text (findall LOC_TAG root))
        = Inr (filter (str_in ''en-US'') (map the (map node_text (findall LOC_TAG root))))"
      using n by (rule locale_filter_total)
    moreover have "filter (str_in ''en-US'') (map the (map node_text (findall LOC_TAG root))) = []"
      using a by (auto simp: filter_empty_conv)
    ultimately show "get_sitemap_urls env' SITEMAP_URL = get_sitemap_urls env SITEMAP_URL"
      using a e by (simp add: get_sitemap_urls_def)
  }
  {
    assume a: "\<not> auth_fails env \<and> get_or_create_folder env DRIVE_FOLDER_NAME w = (Inr folder_id, w1)"
    then show m: "main env w = clean_up_old_files env folder_id {} w1"
      by (simp add: main_non_200 [OF assms])
    show "outdated_ids {} (listing folder_id w1) = fst ` set (listing folder_id w1)"
      by (rule outdated_ids_nothing_expected)
    assume b: "(\<forall>t. \<not> api_fails env (ListFiles t)) \<and> (\<forall>i. \<not> api_fails env (Delete i))"
    then have "clean_up_old_files env folder_id {} w1
        = (Inr (), without (outdated_ids {} (listing folder_id w1)) w1)"
      by (simp add: clean_up_old_files_def list_files_in_folder_total delete_outdated_ok)
    with m show r: "main env w = (Inr (), without (fst ` set (listing folder_id w1)) w1)"
      by (simp add: outdated_ids_nothing_expected)
    show "remote_names folder_id (snd (main env w)) = {}"
      by (simp add: r remote_names_without_listing)
  }
qed

text \<open>
  Claim C10 on the small site when it answers 503: the run completes and the folder,
  which held \<open>old.pdf\<close> and \<open>doc2.pdf\<close>, is empty.
\<close>

theorem non_200_sitemap_empties_folder_witness:
  "http_get (site\<lparr>http_get := \<lambda>u. Response 503 pdf_body\<rparr>) SITEMAP_URL = Response 503 pdf_body \<and>
   (503::nat) \<noteq> 200 \<and>
   get_sitemap_urls (site\<lparr>http_get := \<lambda>u. Response 503 pdf_body\<rparr>) SITEMAP_URL = Inr [] \<and>
   http_get (site\<lparr>http_get := \<lambda>u. Response 200 sitemap_body_fr\<rparr>) SITEMAP_URL
     = Response 200 sitemap_body_fr \<and>
   as_xml sitemap_body_fr = Some sitemap_root_fr \<and>
   map node_text (findall LOC_TAG sitemap_root_fr) = [Some ''https://example.org/fr-FR/a''] \<and>
   \<not> str_in ''en-US'' ''https://example.org/fr-FR/a'' \<and>
   get_sitemap_urls (site\<lparr>http_get := \<lambda>u. Response 200 sitemap_body_fr\<rparr>) SITEMAP_URL = Inr [] \<and>
   \<not> auth_fails (site\<lparr>http_get := \<lambda>u. Response 503 pdf_body\<rparr>) \<and>
   get_or_create_folder (site\<lparr>http_get := \<lambda>u. Response 503 pdf_body\<rparr>) DRIVE_FOLDER_NAME world0
     = (Inr 7, world0) \<and>
   listing 7 world0 = [(8, ''old.pdf''), (9, ''doc2.pdf'')] \<and>
   main (site\<lparr>http_get := \<lambda>u. Response 503 pdf_body\<rparr>) world0
     = (Inr (), \<lparr>drive = [target_folder], local_files = {}\<rparr>) \<and>
   remote_names 7 (snd (main (site\<lparr>http_get := \<lambda>u. Response 503 pdf_body\<rparr>) world0)) = {}"
proof -
  let ?E = "site\<lparr>http_get := \<lambda>u. Response 503 pdf_body\<rparr>"
  let ?F = "site\<lparr>http_get := \<lambda>u. Response 200 sitemap_body_fr\<rparr>"
  have h: "http_get ?E SITEMAP_URL = Response 503 pdf_body" by simp
  have n: "(503::nat) \<noteq> 200" by simp
  note t = non_200_sitemap_empties_folder [OF h n, of world0 7 world0]
  have f1: "http_get ?F SITEMAP_URL = Response 200 sitemap_body_fr" by simp
  have f2: "as_xml sitemap_body_fr = Some sitemap_root_fr" by (simp add: sitemap_body_fr_def)
  have f3: "map node_text (findall LOC_TAG sitemap_root_fr) = [Some ''https://example.org/fr-FR/a'']"
    by (simp add: findall_def sitemap_root_fr_def LOC_TAG_def)
  have f4: "\<not> str_in ''en-US'' ''https://example.org/fr-FR/a''" by simp
  from f3 f4 have f5: "\<forall>x \<in> set (map node_text (findall LOC_TAG sitemap_root_fr)).
      \<exists>u. x = Some u \<and> \<not> str_in ''en-US'' u"
    by (simp only: f3) simp
  from t have e: "get_sitemap_urls ?E SITEMAP_URL = Inr []" by blast
  from t f1 f2 f5 have "get_sitemap_urls ?F SITEMAP_URL = get_sitemap_urls ?E SITEMAP_URL"
    by blast
  with e have fe: "get_sitemap_urls ?F SITEMAP_URL = Inr []" by simp
  have a: "\<not> auth_fails ?E" by (simp add: site_def)
  have g: "get_or_create_folder ?E DRIVE_FOLDER_NAME world0 = (Inr 7, world0)"
    by (simp add: get_or_create_folder_def files_list_def target_folder_def world0_def site_def)
  have l: "\<forall>t. \<not> api_fails ?E (ListFiles t)" and d: "\<forall>i. \<not> api_fails ?E (Delete i)"
    by (simp_all add: site_def)
  from t a g l d have m: "main ?E world0 = (Inr (), without (fst ` set (listing 7 world0)) world0)"
    and r: "remote_names 7 (snd (main ?E world0)) = {}"
    by blast+
  have "without (fst ` set (listing 7 world0)) world0 = \<lparr>drive = [target_folder], local_files = {}\<rparr>"
    by (simp add: world0_listing without_def) (simp add: world0_def target_folder_def remote_file_def)
  with m have m': "main ?E world0 = (Inr (), \<lparr>drive = [target_folder], local_files = {}\<rparr>)"
    by simp
  from h n e f1 f2 f3 f4 fe a g world0_listing m' r show ?thesis
    by blast
qed

section \<open>Running twice\<close>














section \<open>Two runs on the small site\<close>









end
